theory Spec2Isabelle
  imports
    Complex_Main
    "HOL-Library.AList"
    "HOL-Library.Multiset"
    "HOL-Library.Char_ord"
    "HOL-Library.List_Lexorder"
    "HOL-Library.Product_Lexorder"
begin

section \<open>The field container of yt/fields/field_info_container.py\<close>

subsection \<open>Field identities and the sort key\<close>

text \<open>
  A field is named by a tuple \<open>(ftype, fname)\<close> or by a bare string. Strings are
  compared as Python compares them: lexicographically, character by character.
\<close>

datatype fieldname = is_Name: Name string | is_Tup: Tup string string

text \<open>
  \<^verbatim>\<open>def tupleize(inp): if isinstance(inp, tuple): return inp; return ("?", inp)\<close>
\<close>

fun tupleize :: "fieldname \<Rightarrow> string \<times> string" where
  "tupleize (Tup ftype fname) = (ftype, fname)"
| "tupleize (Name inp) = (''?'', inp)"

subsection \<open>Errors\<close>

text \<open>
  Every exception the modelled code raises is a value. \<open>NoFieldNamed key\<close> is the
  \<^verbatim>\<open>KeyError(f"No field named {key}")\<close> of \<^verbatim>\<open>__missing__\<close>; \<open>KeyError key\<close> is the one
  \<^verbatim>\<open>dict.pop\<close> raises for an absent key, \<open>NoSuchPlugin n\<close> the \<^verbatim>\<open>KeyError\<close> of
  \<^verbatim>\<open>field_plugins[n]\<close>. \<open>YTFieldNotFound\<close> is the exception class that
  \<^verbatim>\<open>check_derived_fields\<close> tests for; \<open>OtherException\<close> stands for any other exception
  a collaborator may raise.
\<close>

datatype error =
    NoFieldNamed fieldname
  | KeyError fieldname
  | TypeError
  | RuntimeError
  | ValueError
  | IndexError
  | YTFieldNotFound fieldname
  | NoSuchPlugin string
  | OtherException string

fun is_YTFieldNotFound :: "error \<Rightarrow> bool" where
  "is_YTFieldNotFound (YTFieldNotFound f) = True"
| "is_YTFieldNotFound e = False"

subsection \<open>Field definitions\<close>

text \<open>
  The computing function of a definition: the sentinel \<^verbatim>\<open>NullFunc\<close> (read from storage),
  a \<^verbatim>\<open>TranslationFunc(original_name)\<close>, or an opaque callable supplied by a plug-in,
  identified by a label.
\<close>

datatype func = NullFunc | TranslationFunc fieldname | Callable string

text \<open>
  The keyword arguments that \<^verbatim>\<open>add_field\<close>, \<^verbatim>\<open>add_output_field\<close> and \<^verbatim>\<open>alias\<close> pass on to the
  constructor of \<^verbatim>\<open>DerivedField\<close>. \<open>particle_type\<close> is the truth value of the deprecated
  keyword of that name.
\<close>

record kwargs =
  units :: "string option"
  display_name :: "string option"
  output_units :: "string option"
  particle_type :: bool

definition no_kwargs :: kwargs where
  "no_kwargs = \<lparr>units = None, display_name = None, output_units = None, particle_type = False\<rparr>"

text \<open>
  Modelled from the spec: the class \<^verbatim>\<open>DerivedField\<close> (yt/fields/derived_field.py) is not
  among the sources. A field definition is a metadata record: identity, sampling kind,
  units, display name and computing function. Python compares definitions by object
  identity (\<^verbatim>\<open>load_plugin\<close> relies on it), so every constructed definition carries the
  number \<open>obj_id\<close> of its allocation.
\<close>

record derived_field =
  obj_id :: nat
  df_name :: fieldname
  df_sampling_type :: string
  df_function :: func
  df_units :: "string option"
  df_display_name :: "string option"
  df_output_units :: "string option"

definition DerivedField :: "nat \<Rightarrow> fieldname \<Rightarrow> string \<Rightarrow> func \<Rightarrow> kwargs \<Rightarrow> derived_field" where
  "DerivedField i name sampling_type function kw =
     \<lparr>obj_id = i, df_name = name, df_sampling_type = sampling_type, df_function = function,
      df_units = units kw, df_display_name = display_name kw,
      df_output_units = output_units kw\<rparr>"

subsection \<open>The registry: a dict with a fallback\<close>

text \<open>
  \<^verbatim>\<open>FieldInfoContainer\<close> is a \<^verbatim>\<open>dict\<close> subclass with an attribute \<^verbatim>\<open>fallback\<close> that is
  \<^verbatim>\<open>None\<close> or another container. The dict keeps insertion order, so it is an association
  list; \<^verbatim>\<open>d[k] = v\<close> is \<open>AList.update\<close> (in place for a present key, appended for a new
  one) and removal is \<open>AList.delete\<close>.
\<close>

type_synonym fdict = "(fieldname \<times> derived_field) list"

datatype registry = Registry (local: fdict) (fallback: "registry option")

text \<open>
  \<^verbatim>\<open>self[key]\<close>: \<^verbatim>\<open>dict.__getitem__\<close> finds a local key; otherwise Python calls
  \<^verbatim>\<open>__missing__(key)\<close>, which raises \<^verbatim>\<open>KeyError\<close> without a fallback and returns
  \<^verbatim>\<open>self.fallback[key]\<close> with one.
\<close>

fun getitem :: "registry \<Rightarrow> fieldname \<Rightarrow> error + derived_field" where
  "getitem (Registry d fb) key =
     (case map_of d key of
        Some v \<Rightarrow> Inr v
      | None \<Rightarrow>
          (case fb of
             None \<Rightarrow> Inl (NoFieldNamed key)
           | Some r \<Rightarrow> getitem r key))"

text \<open>\<^verbatim>\<open>__contains__\<close>: the local dict first, then \<^verbatim>\<open>key in self.fallback\<close>.\<close>

fun contains :: "registry \<Rightarrow> fieldname \<Rightarrow> bool" where
  "contains (Registry d fb) key =
     (if key \<in> set (map fst d) then True
      else (case fb of None \<Rightarrow> False | Some r \<Rightarrow> contains r key))"

text \<open>\<^verbatim>\<open>__iter__\<close>: the local keys, then the keys the fallback iterates.\<close>

fun iter :: "registry \<Rightarrow> fieldname list" where
  "iter (Registry d fb) =
     map fst d @ (case fb of None \<Rightarrow> [] | Some r \<Rightarrow> iter r)"

text \<open>
  \<^verbatim>\<open>keys = dict.keys(self); if self.fallback: keys += list(self.fallback.keys()); return keys\<close>

  \<^verbatim>\<open>dict.keys\<close> is a view. The truth value of \<^verbatim>\<open>self.fallback\<close> is that of a dict: false
  for \<^verbatim>\<open>None\<close> and for a container whose own dict is empty. In the true branch the right
  operand is evaluated first (and may raise); then \<^verbatim>\<open>+=\<close> of a \<^verbatim>\<open>dict_keys\<close> view and a list
  raises \<^verbatim>\<open>TypeError\<close>, since views have no addition.
\<close>

fun keys :: "registry \<Rightarrow> error + fieldname list" where
  "keys (Registry d fb) =
     (case fb of
        None \<Rightarrow> Inr (map fst d)
      | Some r \<Rightarrow>
          if local r = [] then Inr (map fst d)
          else (case keys r of
                  Inl e \<Rightarrow> Inl e
                | Inr ks \<Rightarrow> Inl TypeError))"

text \<open>\<^verbatim>\<open>has_key\<close>: as \<^verbatim>\<open>__contains__\<close>, written out once more in the source.\<close>

definition has_key :: "registry \<Rightarrow> fieldname \<Rightarrow> bool" where
  "has_key r key =
     (if contains r key then True
      else (case fallback r of None \<Rightarrow> False | Some fb \<Rightarrow> contains fb key))"

text \<open>
  \<^verbatim>\<open>create_with_fallback\<close>: its first statement \<^verbatim>\<open>obj = cls()\<close> calls \<^verbatim>\<open>__init__\<close> without the
  required arguments \<^verbatim>\<open>ds\<close> and \<^verbatim>\<open>field_list\<close>, which raises \<^verbatim>\<open>TypeError\<close>; the assignment of
  the fallback is never reached. A fallback is attached by assigning the attribute.
\<close>

definition create_with_fallback :: "registry \<Rightarrow> error + registry" where
  "create_with_fallback fb = Inl TypeError"

text \<open>\<^verbatim>\<open>dict.__setitem__\<close> and \<^verbatim>\<open>dict.pop\<close> act on the local dict only.\<close>

fun setitem :: "registry \<Rightarrow> fieldname \<Rightarrow> derived_field \<Rightarrow> registry" where
  "setitem (Registry d fb) key v = Registry (AList.update key v d) fb"

fun pop :: "registry \<Rightarrow> fieldname \<Rightarrow> error + registry" where
  "pop (Registry d fb) key =
     (if key \<in> set (map fst d) then Inr (Registry (AList.delete key d) fb)
      else Inl (KeyError key))"

subsection \<open>The dataset and the container's state\<close>

text \<open>
  A unit override of the dataset (\<^verbatim>\<open>ds.field_units\<close>) is a unit string or a bare
  numeric multiplier.
\<close>

datatype unit_value = UStr string | UNum real

text \<open>
  The attributes of \<^verbatim>\<open>self.ds\<close> that the container reads and writes. The unit system is
  a collaborator: \<open>unit_dimensions u\<close> stands for \<^verbatim>\<open>Unit(u, registry=...).dimensions\<close>
  (\<open>None\<close> for \<^verbatim>\<open>dimensionless\<close>; the parser may raise), \<open>unit_system dims\<close> for
  \<^verbatim>\<open>str(ds.unit_system[dims])\<close>, and \<open>format_number\<close> for the text an f-string gives a
  number. \<open>field_test_dataset\<close> is \<^verbatim>\<open>hasattr(ds, "_field_test_dataset")\<close>.
\<close>

record dataset =
  particle_types :: "string list"
  field_units :: "(fieldname \<times> unit_value) list"
  axis_order :: "string list"
  default_fluid_type :: string
  unit_dimensions :: "string option \<Rightarrow> error + string option"
  unit_system :: "string \<Rightarrow> string"
  format_number :: "real \<Rightarrow> string"
  field_test_dataset :: bool
  derived_field_list :: "fieldname list"
  field_dependencies :: "(fieldname \<times> fieldname set) list"

text \<open>What the code writes to \<^verbatim>\<open>mylog\<close> and the warnings it issues.\<close>

datatype log_entry =
    Debug_raises error fieldname
  | Debug_succeeded fieldname "fieldname set"
  | Debug_loaded string nat
  | Warning_cannot_interpret_units unit_value string
  | Deprecation_particle_type

text \<open>
  The state threaded through the methods: the container (\<open>self\<close> is its dict with its
  fallback, the other fields are its attributes), its dataset, the log, and the counter
  that numbers newly constructed definitions.
\<close>

record state =
  self :: registry
  field_aliases :: "(fieldname \<times> fieldname) list"
  show_field_errors :: "fieldname list"
  field_list :: "fieldname list"
  curvilinear :: bool
  known_other_fields :: "(string \<times> string \<times> string list \<times> string option) list"
  ds :: dataset
  mylog :: "log_entry list"
  next_id :: nat

text \<open>\<^verbatim>\<open>self[name] = DerivedField(name, sampling_type, function, **kwargs)\<close>\<close>

definition store :: "state \<Rightarrow> fieldname \<Rightarrow> string \<Rightarrow> func \<Rightarrow> kwargs \<Rightarrow> state" where
  "store st name sampling_type function kw =
     st\<lparr>self := setitem (self st) name (DerivedField (next_id st) name sampling_type function kw),
        next_id := Suc (next_id st)\<rparr>"

subsection \<open>Registration\<close>

text \<open>\<^verbatim>\<open>str.lower\<close>, on the ASCII letters.\<close>

definition lower_char :: "char \<Rightarrow> char" where
  "lower_char c =
     (if CHR ''A'' \<le> c \<and> c \<le> CHR ''Z'' then char_of (of_char c + (32::nat)) else c)"

definition lower :: "string \<Rightarrow> string" where
  "lower s = map lower_char s"

text \<open>
  \<^verbatim>\<open>_sanitize_sampling_type\<close>, for a string argument: \<^verbatim>\<open>ValueError\<close> for an unsupported
  sampling type, \<^verbatim>\<open>RuntimeError\<close> when the deprecated \<^verbatim>\<open>particle_type\<close> is set and the
  sampling type is not \<^verbatim>\<open>"particle"\<close>.
\<close>

definition sanitize_sampling_type :: "string \<Rightarrow> bool \<Rightarrow> error + string" where
  "sanitize_sampling_type sampling_type ptype =
     (let sampling_type = lower sampling_type in
      if sampling_type \<notin> set [''cell'', ''particle'', ''local''] then Inl ValueError
      else if ptype \<and> sampling_type \<noteq> ''particle'' then Inl RuntimeError
      else Inr sampling_type)"

text \<open>
  What \<^verbatim>\<open>add_field\<close> returns: \<^verbatim>\<open>None\<close>, or, when it is used as a decorator
  (\<^verbatim>\<open>function is None\<close>), one of its two closures \<^verbatim>\<open>create_function\<close>: the one that only
  returns its argument, or the one that registers it under the captured name.
\<close>

datatype decorator = Return_only | Register fieldname string kwargs

text \<open>\<^verbatim>\<open>add_output_field\<close>: a definition backed by storage.\<close>

definition add_output_field :: "state \<Rightarrow> fieldname \<Rightarrow> string \<Rightarrow> kwargs \<Rightarrow> state" where
  "add_output_field st name sampling_type kw = store st name sampling_type NullFunc kw"

text \<open>
  \<^verbatim>\<open>add_field\<close> and \<^verbatim>\<open>alias\<close> call each other: a bare name is registered under
  \<^verbatim>\<open>(ftype, name)\<close> and aliased, and \<^verbatim>\<open>alias\<close> registers its alias with \<^verbatim>\<open>add_field\<close>.
  \<open>alias_field\<close> is the method \<^verbatim>\<open>alias\<close>, \<open>override\<close> the keyword \<^verbatim>\<open>force_override\<close>,
  \<open>function = None\<close> the decorator form.
\<close>

function add_field ::
    "state \<Rightarrow> fieldname \<Rightarrow> func option \<Rightarrow> string \<Rightarrow> kwargs \<Rightarrow> bool \<Rightarrow> error + state \<times> decorator option"
  and alias_field :: "state \<Rightarrow> fieldname \<Rightarrow> fieldname \<Rightarrow> string option \<Rightarrow> error + state" where
  "add_field st name function sampling_type kw override =
     (if \<not> override \<and> contains (self st) name then
        (case function of
           None \<Rightarrow> Inr (st, Some Return_only)
         | Some f \<Rightarrow> Inr (st, None))
      else
        (case function of
           None \<Rightarrow> Inr (st, Some (Register name sampling_type kw))
         | Some f \<Rightarrow>
             (case name of
                Tup t n \<Rightarrow> Inr (store st name sampling_type f kw, None)
              | Name n \<Rightarrow>
                  (case sanitize_sampling_type sampling_type (particle_type kw) of
                     Inl e \<Rightarrow> Inl e
                   | Inr stype \<Rightarrow>
                       (let st0 = (if particle_type kw
                                   then st\<lparr>mylog := mylog st @ [Deprecation_particle_type]\<rparr>
                                   else st);
                            ftype = (if stype = ''particle'' then ''all''
                                     else default_fluid_type (ds st0))
                        in if \<not> contains (self st0) (Tup ftype n) then
                             (case alias_field (store st0 (Tup ftype n) stype f kw) name (Tup ftype n) None of
                                Inl e \<Rightarrow> Inl e
                              | Inr st1 \<Rightarrow> Inr (st1, None))
                           else Inr (store st0 name stype f kw, None))))))"
| "alias_field st alias_name original_name alias_units =
     (if \<not> contains (self st) original_name then Inr st
      else
        (case getitem (self st) original_name of
           Inl e \<Rightarrow> Inl e
         | Inr orig \<Rightarrow>
             (case (case alias_units of
                      Some u \<Rightarrow> Inr (Some u)
                    | None \<Rightarrow>
                        (case unit_dimensions (ds st) (df_units orig) of
                           Inl e \<Rightarrow> Inl e
                         | Inr (Some dims) \<Rightarrow> Inr (Some (unit_system (ds st) dims))
                         | Inr None \<Rightarrow> Inr (df_units orig))) of
                Inl e \<Rightarrow> Inl e
              | Inr u \<Rightarrow>
                  (case add_field
                          (st\<lparr>field_aliases :=
                                AList.update alias_name original_name (field_aliases st)\<rparr>)
                          alias_name (Some (TranslationFunc original_name))
                          (df_sampling_type orig)
                          \<lparr>units = u, display_name = df_display_name orig,
                           output_units = None, particle_type = False\<rparr>
                          False of
                     Inl e \<Rightarrow> Inl e
                   | Inr (st1, r) \<Rightarrow> Inr st1))))"
  by pat_completeness auto

text \<open>
  The recursion ends: each round from \<open>add_field\<close> through \<open>alias_field\<close> back to
  \<open>add_field\<close> has just stored \<^verbatim>\<open>(ftype, name)\<close> for the same bare name, and \<open>ftype\<close> is
  \<^verbatim>\<open>"all"\<close> or the default fluid type.
\<close>

definition unqualified :: "state \<Rightarrow> fieldname \<Rightarrow> nat" where
  "unqualified st name =
     (case name of
        Tup t n \<Rightarrow> 0
      | Name n \<Rightarrow>
          (if contains (self st) (Tup ''all'' n) then 0 else 1) +
          (if contains (self st) (Tup (default_fluid_type (ds st)) n) then 0 else 1))"

lemma contains_setitem: "contains (setitem r k v) k' \<longleftrightarrow> k' = k \<or> contains r k'"
  by (cases r) (auto simp: dom_update image_iff)

lemma self_store [simp]:
  "self (store st name s f kw) = setitem (self st) name (DerivedField (next_id st) name s f kw)"
  by (simp add: store_def)

lemma ds_store [simp]: "ds (store st name s f kw) = ds st"
  by (simp add: store_def)

termination add_field
  apply (relation "measure (\<lambda>x. case x of
            Inl (st, name, f, s, kw, ov) \<Rightarrow> 2 * unqualified st name
          | Inr (st, a, orig, u) \<Rightarrow> 2 * unqualified st a + 1)")
    apply simp
  subgoal
    by (auto simp: unqualified_def contains_setitem split: if_splits)
  subgoal for st alias_name
    by (cases alias_name) (simp_all add: unqualified_def)
  done

declare add_field.simps [simp del] alias_field.simps [simp del]

text \<open>
  Calling a closure that \<^verbatim>\<open>add_field\<close> returned, on the function \<open>f\<close> it decorates:
  \<^verbatim>\<open>self[name] = DerivedField(name, sampling_type, f, **kwargs)\<close> for the registering one.
\<close>

definition apply_decorator :: "state \<Rightarrow> decorator \<Rightarrow> func \<Rightarrow> state" where
  "apply_decorator st dec f =
     (case dec of
        Return_only \<Rightarrow> st
      | Register name sampling_type kw \<Rightarrow> store st name sampling_type f kw)"

subsection \<open>Fluid aliases\<close>

text \<open>
  \<^verbatim>\<open>sorted(self.field_list)\<close>: tuples sort among tuples and strings among strings;
  comparing a string with a tuple raises \<^verbatim>\<open>TypeError\<close>.
\<close>

definition sorted_fields :: "fieldname list \<Rightarrow> error + fieldname list" where
  "sorted_fields fs =
     (if list_all is_Tup fs then Inr (map (\<lambda>(t, n). Tup t n) (sort (map tupleize fs)))
      else if list_all is_Name fs then Inr (map Name (sort (map (\<lambda>f. snd (tupleize f)) fs)))
      else Inl TypeError)"

text \<open>
  \<^verbatim>\<open>field[0]\<close> and \<^verbatim>\<open>field[1]\<close>: the components of a tuple; of a bare string, its first
  and second character, \<^verbatim>\<open>IndexError\<close> when it is too short.
\<close>

fun index0 :: "fieldname \<Rightarrow> error + string" where
  "index0 (Tup t n) = Inr t"
| "index0 (Name []) = Inl IndexError"
| "index0 (Name (c # cs)) = Inr [c]"

fun index1 :: "fieldname \<Rightarrow> error + string" where
  "index1 (Tup t n) = Inr n"
| "index1 (Name (c # c' # cs)) = Inr [c']"
| "index1 (Name cs) = Inl IndexError"

text \<open>
  \<^verbatim>\<open>dict(self.known_other_fields).get(name, ("", [], None))\<close>: of two catalog entries with
  one name the later one counts.
\<close>

definition known_get ::
    "(string \<times> string \<times> string list \<times> string option) list \<Rightarrow> string \<Rightarrow>
     string \<times> string list \<times> string option" where
  "known_get known name =
     (case map_of (rev known) name of Some args \<Rightarrow> args | None \<Rightarrow> ([], [], None))"

text \<open>\<^verbatim>\<open>get_aliases_gallery\<close>: the declared aliases, collected when the geometry is curvilinear.\<close>

fun gallery_loop :: "state \<Rightarrow> fieldname list \<Rightarrow> string list \<Rightarrow> error + string list" where
  "gallery_loop st [] aliases_gallery = Inr aliases_gallery"
| "gallery_loop st (field # flds) aliases_gallery =
     (case index0 field of
        Inl e \<Rightarrow> Inl e
      | Inr t \<Rightarrow>
          if t \<in> set (particle_types (ds st)) then gallery_loop st flds aliases_gallery
          else
            (case index1 field of
               Inl e \<Rightarrow> Inl e
             | Inr n \<Rightarrow>
                 (case known_get (known_other_fields st) n of
                    (args0, aliases, dname) \<Rightarrow>
                      gallery_loop st flds (aliases_gallery @ aliases))))"

definition get_aliases_gallery :: "state \<Rightarrow> error + string list" where
  "get_aliases_gallery st =
     (if curvilinear st then
        (case sorted_fields (field_list st) of
           Inl e \<Rightarrow> Inl e
         | Inr flds \<Rightarrow> gallery_loop st flds [])
      else Inr [])"

text \<open>\<^verbatim>\<open>alias[-2:]\<close> and \<^verbatim>\<open>alias[:-2]\<close>.\<close>

definition last2 :: "string \<Rightarrow> string" where
  "last2 s = drop (length s - 2) s"

definition but_last2 :: "string \<Rightarrow> string" where
  "but_last2 s = take (length s - 2) s"

text \<open>
  The sibling check of \<^verbatim>\<open>setup_fluid_aliases\<close>:

  \<^verbatim>\<open>for suffix in ["x", "y", "z"]:\<close>
  \<^verbatim>\<open>    if f"{alias[:-2]}_{suffix}" not in aliases_gallery:\<close>
  \<^verbatim>\<open>        to_convert = False\<close>
  \<^verbatim>\<open>        break\<close>
  \<^verbatim>\<open>to_convert = True\<close>

  \<open>siblings_loop\<close> is the loop, from the value \<open>to_convert\<close> has when the loop starts;
  the assignment after the loop is not in an \<^verbatim>\<open>else\<close> clause of the loop and runs
  whether the loop broke or not.
\<close>

fun siblings_loop :: "string list \<Rightarrow> string \<Rightarrow> string list \<Rightarrow> bool \<Rightarrow> bool" where
  "siblings_loop aliases_gallery a [] to_convert = to_convert"
| "siblings_loop aliases_gallery a (suffix # suffixes) to_convert =
     (if but_last2 a @ ''_'' @ suffix \<notin> set aliases_gallery then False
      else siblings_loop aliases_gallery a suffixes to_convert)"

definition to_convert_of :: "string list \<Rightarrow> string \<Rightarrow> bool \<Rightarrow> bool" where
  "to_convert_of aliases_gallery a to_convert =
     (if last2 a \<notin> set [''_x'', ''_y'', ''_z''] then False
      else (let to_convert = siblings_loop aliases_gallery a [''x'', ''y'', ''z''] to_convert;
                to_convert = True
            in to_convert))"

text \<open>\<^verbatim>\<open>axis_names[i]\<close>\<close>

definition axis_name :: "string list \<Rightarrow> nat \<Rightarrow> error + string" where
  "axis_name axis_names i = (if i < length axis_names then Inr (axis_names ! i) else Inl IndexError)"

text \<open>The name under which an alias is registered once \<open>to_convert\<close> holds.\<close>

definition convert_alias :: "string list \<Rightarrow> string \<Rightarrow> error + string" where
  "convert_alias axis_names a =
     (if last2 a = ''_x'' then
        (case axis_name axis_names 0 of Inl e \<Rightarrow> Inl e | Inr ax \<Rightarrow> Inr (but_last2 a @ ''_'' @ ax))
      else if last2 a = ''_y'' then
        (case axis_name axis_names 1 of Inl e \<Rightarrow> Inl e | Inr ax \<Rightarrow> Inr (but_last2 a @ ''_'' @ ax))
      else if last2 a = ''_z'' then
        (case axis_name axis_names 2 of Inl e \<Rightarrow> Inl e | Inr ax \<Rightarrow> Inr (but_last2 a @ ''_'' @ ax))
      else Inr a)"

text \<open>
  The loop \<^verbatim>\<open>for alias in aliases\<close>. \<open>to_convert\<close> is a variable of the method: it keeps
  its value from one alias to the next and is read only after it has been assigned.
\<close>

fun alias_loop ::
    "state \<Rightarrow> string \<Rightarrow> string list \<Rightarrow> fieldname \<Rightarrow> string list \<Rightarrow> bool \<Rightarrow> string list \<Rightarrow>
     error + state \<times> bool" where
  "alias_loop st ftype aliases_gallery field axis_names to_convert [] = Inr (st, to_convert)"
| "alias_loop st ftype aliases_gallery field axis_names to_convert (a # aliases) =
     (let to_convert' = (if curvilinear st then to_convert_of aliases_gallery a to_convert
                         else to_convert)
      in case (if curvilinear st \<and> to_convert' then convert_alias axis_names a else Inr a) of
           Inl e \<Rightarrow> Inl e
         | Inr a' \<Rightarrow>
             (case alias_field st (Tup ftype a') field None of
                Inl e \<Rightarrow> Inl e
              | Inr st' \<Rightarrow> alias_loop st' ftype aliases_gallery field axis_names to_convert' aliases))"

text \<open>
  The units of an on-disk field: the catalog's, overridden by \<^verbatim>\<open>ds.field_units\<close> under the
  bare name and then under the tuple. \<open>resolve_units\<close> is the two conditionals that follow,
  by cases on the override: a string is kept; a number is combined with non-empty catalog
  units into the string \<^verbatim>\<open>((catalog_units)*number)\<close>; a number with empty catalog units
  gives the empty string, with a warning unless it is 1.
\<close>

definition resolve_units :: "dataset \<Rightarrow> string \<Rightarrow> unit_value \<Rightarrow> string \<times> log_entry list" where
  "resolve_units d args0 u =
     (case u of
        UStr s \<Rightarrow> (s, [])
      | UNum x \<Rightarrow>
          if args0 \<noteq> [] then (''(('' @ args0 @ '')*'' @ format_number d x @ '')'', [])
          else if x \<noteq> 1 then ([], [Warning_cannot_interpret_units u args0])
          else ([], []))"

definition field_units_get :: "dataset \<Rightarrow> fieldname \<Rightarrow> unit_value \<Rightarrow> unit_value" where
  "field_units_get d key dflt = (case map_of (field_units d) key of Some u \<Rightarrow> u | None \<Rightarrow> dflt)"

text \<open>The loop \<^verbatim>\<open>for field in sorted(self.field_list)\<close> of \<^verbatim>\<open>setup_fluid_aliases\<close>.\<close>

fun fluid_loop ::
    "state \<Rightarrow> string \<Rightarrow> string list \<Rightarrow> bool \<Rightarrow> fieldname list \<Rightarrow> error + state" where
  "fluid_loop st ftype aliases_gallery to_convert [] = Inr st"
| "fluid_loop st ftype aliases_gallery to_convert (field # flds) =
     (case field of
        Name s \<Rightarrow> Inl RuntimeError
      | Tup t n \<Rightarrow>
          if t \<in> set (particle_types (ds st)) then fluid_loop st ftype aliases_gallery to_convert flds
          else
            (case known_get (known_other_fields st) n of
               (args0, aliases, dname) \<Rightarrow>
                 (let u = field_units_get (ds st) (Name n) (UStr args0);
                      u = field_units_get (ds st) field u;
                      (u, warnings) = resolve_units (ds st) args0 u;
                      st = st\<lparr>mylog := mylog st @ warnings\<rparr>;
                      st = add_output_field st field ''cell''
                             \<lparr>units = Some u, display_name = dname, output_units = None,
                              particle_type = False\<rparr>;
                      axis_names = axis_order (ds st)
                  in case alias_loop st ftype aliases_gallery field axis_names to_convert aliases of
                       Inl e \<Rightarrow> Inl e
                     | Inr (st, to_convert) \<Rightarrow>
                         fluid_loop st ftype aliases_gallery to_convert flds)))"

text \<open>
  \<^verbatim>\<open>setup_fluid_aliases(ftype="gas")\<close>. Before the first alias is seen \<open>to_convert\<close> is
  unassigned; it is never read in that state, so any initial value does.
\<close>

definition setup_fluid_aliases :: "state \<Rightarrow> string \<Rightarrow> error + state" where
  "setup_fluid_aliases st ftype =
     (case get_aliases_gallery st of
        Inl e \<Rightarrow> Inl e
      | Inr aliases_gallery \<Rightarrow>
          (case sorted_fields (field_list st) of
             Inl e \<Rightarrow> Inl e
           | Inr flds \<Rightarrow> fluid_loop st ftype aliases_gallery False flds))"

subsection \<open>Dependency validation\<close>

text \<open>
  Modelled from the spec: \<open>get_dependencies fi r d\<close> stands for
  \<^verbatim>\<open>fi.get_dependencies(ds=self.ds)\<close> of \<^verbatim>\<open>DerivedField\<close>, whose code is not among the
  sources. It raises, or returns a field detector, of which the model keeps the list
  \<^verbatim>\<open>requested\<close>: the on-disk identities the field needs, directly or through the fields
  it depends on, which are resolved inside that call. The dataset it is handed refers
  back to the container, so discovery can look up the definitions registered at the
  moment of the call: \<open>r\<close> is the container's dict and fallback at that moment, \<open>d\<close> the
  dataset's own attributes.

  A Python \<^verbatim>\<open>set\<close> iterates in an order fixed by the hashes of its elements, which
  differs from run to run: \<open>set_order\<close> and \<open>items_order\<close> give, for the elements of a set
  listed without repetition, the order in which one run iterates over them.
  \<open>field_plugins\<close> is the dict of that name (yt/fields/field_plugin_registry.py), from a
  plug-in's name to its routine, in the order the routines were registered.
\<close>

record env =
  get_dependencies :: "derived_field \<Rightarrow> registry \<Rightarrow> dataset \<Rightarrow> error + fieldname list"
  set_order :: "fieldname list \<Rightarrow> fieldname list"
  items_order :: "(fieldname \<times> derived_field) list \<Rightarrow> (fieldname \<times> derived_field) list"
  field_plugins :: "(string \<times> (state \<Rightarrow> string \<Rightarrow> error + state)) list"

type_synonym deps = "(fieldname \<times> fieldname set) list"

text \<open>
  The body of the loop of \<^verbatim>\<open>check_derived_fields\<close> for one \<open>field\<close>, on the container, the
  dict \<^verbatim>\<open>deps\<close> and the list \<^verbatim>\<open>unavailable\<close>. \<^verbatim>\<open>fi = self[field]\<close> is outside the \<^verbatim>\<open>try\<close>.
\<close>

definition check_field ::
    "env \<Rightarrow> fieldname \<Rightarrow> state \<times> deps \<times> fieldname list \<Rightarrow> error + state \<times> deps \<times> fieldname list" where
  "check_field E field s =
     (case s of (st, deps, unavailable) \<Rightarrow>
        (case getitem (self st) field of
           Inl e \<Rightarrow> Inl e
         | Inr fi \<Rightarrow>
             (case get_dependencies E fi (self st) (ds st) of
                Inl e \<Rightarrow>
                  if field \<in> set (show_field_errors st) then Inl e
                  else if \<not> is_YTFieldNotFound e \<and> field_test_dataset (ds st) then Inl e
                  else
                    (let st = (if \<not> is_YTFieldNotFound e
                               then st\<lparr>mylog := mylog st @ [Debug_raises e field]\<rparr>
                               else st)
                     in case pop (self st) field of
                          Inl e' \<Rightarrow> Inl e'
                        | Inr r \<Rightarrow> Inr (st\<lparr>self := r\<rparr>, deps, unavailable))
              | Inr requested \<Rightarrow>
                  if \<not> list_all (\<lambda>f. f \<in> set (field_list st)) requested then
                    (case pop (self st) field of
                       Inl e \<Rightarrow> Inl e
                     | Inr r \<Rightarrow> Inr (st\<lparr>self := r\<rparr>, deps, unavailable @ [field]))
                  else
                    Inr (st\<lparr>mylog := mylog st @ [Debug_succeeded field (set requested)]\<rparr>,
                         AList.update field (set requested) deps,
                         unavailable))))"

fun check_loop ::
    "env \<Rightarrow> fieldname list \<Rightarrow> state \<times> deps \<times> fieldname list \<Rightarrow> error + state \<times> deps \<times> fieldname list" where
  "check_loop E [] s = Inr s"
| "check_loop E (field # flds) s =
     (case check_field E field s of
        Inl e \<Rightarrow> Inl e
      | Inr s' \<Rightarrow> check_loop E flds s')"

text \<open>
  \<^verbatim>\<open>dfl = set(self.ds.derived_field_list).union(deps.keys())\<close>
  \<^verbatim>\<open>self.ds.derived_field_list = list(sorted(dfl, key=tupleize))\<close>

  \<^verbatim>\<open>sorted\<close> is stable, as \<open>sort_key\<close> is: elements with one key stay in the order in
  which the set iterates over them.
\<close>

definition publish :: "env \<Rightarrow> dataset \<Rightarrow> deps \<Rightarrow> dataset" where
  "publish E d deps =
     d\<lparr>derived_field_list :=
         sort_key tupleize (set_order E (remdups (derived_field_list d @ map fst deps)))\<rparr>"

text \<open>
  \<^verbatim>\<open>check_derived_fields(fields_to_check=None)\<close>. In
  \<^verbatim>\<open>fields_to_check = fields_to_check or list(self.keys())\<close> both \<^verbatim>\<open>None\<close> and the empty list
  are false, and \<^verbatim>\<open>self.keys()\<close> is called only then.
\<close>

definition fields_or_keys :: "state \<Rightarrow> fieldname list option \<Rightarrow> error + fieldname list" where
  "fields_or_keys st fields_to_check =
     (case fields_to_check of
        Some (f # fs) \<Rightarrow> Inr (f # fs)
      | Some [] \<Rightarrow> keys (self st)
      | None \<Rightarrow> keys (self st))"

definition check_derived_fields ::
    "env \<Rightarrow> state \<Rightarrow> fieldname list option \<Rightarrow> error + state \<times> deps \<times> fieldname list" where
  "check_derived_fields E st fields_to_check =
     (case fields_or_keys st fields_to_check of
        Inl e \<Rightarrow> Inl e
      | Inr flds \<Rightarrow>
          (case check_loop E flds (st, [], []) of
             Inl e \<Rightarrow> Inl e
           | Inr (st, deps, unavailable) \<Rightarrow>
               Inr (st\<lparr>ds := publish E (ds st) deps\<rparr>, deps, unavailable)))"

subsection \<open>Plug-ins\<close>

text \<open>
  \<^verbatim>\<open>find_dependencies(loaded)\<close>: \<^verbatim>\<open>dict.update\<close> stores the entries of \<^verbatim>\<open>deps\<close> one after
  the other; the derived field list is merged and sorted once more.
\<close>

definition dict_update :: "deps \<Rightarrow> deps \<Rightarrow> deps" where
  "dict_update d new = fold (\<lambda>(k, v). AList.update k v) new d"

definition find_dependencies ::
    "env \<Rightarrow> state \<Rightarrow> fieldname list \<Rightarrow> error + state \<times> fieldname list \<times> fieldname list" where
  "find_dependencies E st loaded =
     (case check_derived_fields E st (Some loaded) of
        Inl e \<Rightarrow> Inl e
      | Inr (st, deps, unavailable) \<Rightarrow>
          (let d = (ds st)\<lparr>field_dependencies := dict_update (field_dependencies (ds st)) deps\<rparr>
           in Inr (st\<lparr>ds := publish E d deps\<rparr>, loaded, unavailable)))"

text \<open>
  \<^verbatim>\<open>load_plugin(plugin_name, ftype)\<close>, for a name or a callable. \<^verbatim>\<open>self.items()\<close> is the
  local dict; the items are compared as pairs of a key and a definition, so a key whose
  definition was replaced counts as loaded.
\<close>

datatype plugin_ref = By_name string | Routine "state \<Rightarrow> string \<Rightarrow> error + state"

definition load_plugin :: "env \<Rightarrow> state \<Rightarrow> plugin_ref \<Rightarrow> string \<Rightarrow> error + state \<times> fieldname list" where
  "load_plugin E st plugin_name ftype =
     (case (case plugin_name of
              Routine f \<Rightarrow> Inr f
            | By_name n \<Rightarrow>
                (case map_of (field_plugins E) n of
                   None \<Rightarrow> Inl (NoSuchPlugin n)
                 | Some f \<Rightarrow> Inr f)) of
        Inl e \<Rightarrow> Inl e
      | Inr f \<Rightarrow>
          (let orig = local (self st)
           in case f st ftype of
                Inl e \<Rightarrow> Inl e
              | Inr st' \<Rightarrow>
                  Inr (st', map fst (items_order E
                         (remdups (filter (\<lambda>item. item \<notin> set orig) (local (self st'))))))))"

text \<open>\<^verbatim>\<open>load_all_plugins(ftype="gas")\<close>: the loop over \<^verbatim>\<open>sorted(field_plugins)\<close>, then the check.\<close>

fun plugins_loop ::
    "env \<Rightarrow> string \<Rightarrow> string list \<Rightarrow> state \<times> fieldname list \<Rightarrow> error + state \<times> fieldname list" where
  "plugins_loop E ftype [] s = Inr s"
| "plugins_loop E ftype (n # ns) s =
     (case s of (st, loaded) \<Rightarrow>
        (case load_plugin E st (By_name n) ftype of
           Inl e \<Rightarrow> Inl e
         | Inr (st, new) \<Rightarrow>
             (let loaded = loaded @ new;
                  st = st\<lparr>mylog := mylog st @ [Debug_loaded n (length loaded)]\<rparr>
              in plugins_loop E ftype ns (st, loaded))))"

definition load_all_plugins :: "env \<Rightarrow> state \<Rightarrow> string \<Rightarrow> error + state" where
  "load_all_plugins E st ftype =
     (case plugins_loop E ftype (sort (map fst (field_plugins E))) (st, []) of
        Inl e \<Rightarrow> Inl e
      | Inr (st, loaded) \<Rightarrow>
          (case find_dependencies E st loaded of
             Inl e \<Rightarrow> Inl e
           | Inr (st, loaded, unavailable) \<Rightarrow> Inr st))"

section \<open>Example data\<close>

text \<open>
  A dataset in spherical coordinates with one particle type and the trivial unit system,
  and a freshly constructed container (empty dict, no fallback) for a field list and a
  catalog of known fields.
\<close>

definition spherical_ds :: dataset where
  "spherical_ds =
     \<lparr>particle_types = [''io''], field_units = [],
      axis_order = [''r'', ''theta'', ''phi''], default_fluid_type = ''gas'',
      unit_dimensions = (\<lambda>u. Inr None), unit_system = (\<lambda>d. d), format_number = (\<lambda>x. ''1''),
      field_test_dataset = False, derived_field_list = [], field_dependencies = []\<rparr>"

definition fresh_state ::
    "bool \<Rightarrow> fieldname list \<Rightarrow> (string \<times> string \<times> string list \<times> string option) list \<Rightarrow> state" where
  "fresh_state curv fl known =
     \<lparr>self = Registry [] None, field_aliases = [], show_field_errors = [], field_list = fl,
      curvilinear = curv, known_other_fields = known, ds = spherical_ds, mylog = [],
      next_id = 0\<rparr>"

text \<open>Two definitions that differ in their computing function only.\<close>

definition df1 :: derived_field where
  "df1 = DerivedField 1 (Tup ''gas'' ''density'') ''cell'' (Callable ''f1'') no_kwargs"

definition df2 :: derived_field where
  "df2 = DerivedField 2 (Tup ''gas'' ''density'') ''cell'' (Callable ''f2'') no_kwargs"

section \<open>Lookup, containment and keys\<close>

lemma mem_keys_iff: "key \<in> fst ` set d \<longleftrightarrow> map_of d key \<noteq> None"
  by (simp add: map_of_eq_None_iff)

lemma getitem_contains:
  "(\<not> contains r X \<longrightarrow> getitem r X = Inl (NoFieldNamed X)) \<and>
   (contains r X \<longrightarrow> (\<exists>v. getitem r X = Inr v))"
proof (induction r X rule: getitem.induct)
  case (1 d fb key)
  show ?case
  proof (cases "map_of d key")
    case None
    with 1 show ?thesis by (cases fb) (auto simp: mem_keys_iff)
  next
    case (Some v)
    then show ?thesis by (simp add: mem_keys_iff)
  qed
qed

text \<open>
  C5. For a registry \<open>R1\<close> with fallback \<open>R2\<close> and an identity \<open>X\<close> defined in both, lookup
  on \<open>R1\<close> returns the local definition of \<open>R1\<close> and containment holds; the fallback is
  consulted only when \<open>X\<close> is absent from the local map, and then lookup and containment
  are those of \<open>R2\<close>. Since \<open>R2\<close> is any registry with any fallback chain of its own, the
  definition closest to the caller shadows every one further down the chain.
\<close>

theorem fallback_shadowing:
  assumes "fallback R1 = Some R2"
  shows "(map_of (local R1) X = Some v1 \<and> getitem R2 X = Inr v2 \<longrightarrow>
           getitem R1 X = Inr v1 \<and> contains R1 X) \<and>
         (map_of (local R1) X = None \<longrightarrow>
           getitem R1 X = getitem R2 X \<and> contains R1 X = contains R2 X)"
  using assms by (cases R1) (auto simp: mem_keys_iff)

theorem fallback_shadowing_witness:
  "getitem (Registry [(Tup ''gas'' ''density'', df1)]
              (Some (Registry [(Tup ''gas'' ''density'', df2)] None)))
           (Tup ''gas'' ''density'') = Inr df1 \<and>
   contains (Registry [(Tup ''gas'' ''density'', df1)]
              (Some (Registry [(Tup ''gas'' ''density'', df2)] None)))
            (Tup ''gas'' ''density'') \<and>
   df1 \<noteq> df2"
  using fallback_shadowing
          [of "Registry [(Tup ''gas'' ''density'', df1)]
                 (Some (Registry [(Tup ''gas'' ''density'', df2)] None))"
              "Registry [(Tup ''gas'' ''density'', df2)] None"
              "Tup ''gas'' ''density''" df1 df2]
  by (simp add: df1_def df2_def DerivedField_def)

text \<open>
  C6. The claim is that \<^verbatim>\<open>keys\<close> of a registry with a non-empty fallback returns the local
  identities followed by the fallback's. The code does not: whenever the fallback's own
  dict is non-empty, \<^verbatim>\<open>keys\<close> raises \<^verbatim>\<open>TypeError\<close>.
\<close>

theorem keys_fallback_TypeError:
  "local fb \<noteq> [] \<Longrightarrow> keys (Registry d (Some fb)) = Inl TypeError"
proof (induction fb arbitrary: d)
  case (Registry d' fb')
  show ?case
  proof (cases fb')
    case None
    with Registry.prems show ?thesis by simp
  next
    case (Some r)
    show ?thesis
    proof (cases "local r = []")
      case True
      with Some Registry.prems show ?thesis by simp
    next
      case False
      have "keys (Registry d' (Some r)) = Inl TypeError"
        using Registry.IH [of r] Some False by simp
      with Some Registry.prems show ?thesis by simp
    qed
  qed
qed

theorem keys_fallback_TypeError_witness:
  "keys (Registry [(Tup ''io'' ''mass'', df1)]
          (Some (Registry [(Tup ''gas'' ''density'', df2)] None))) = Inl TypeError"
  using keys_fallback_TypeError
          [of "Registry [(Tup ''gas'' ''density'', df2)] None" "[(Tup ''io'' ''mass'', df1)]"]
  by simp

text \<open>
  C7, as the code has it. Looking up an identity that is absent from a registry and from
  its whole fallback chain (\<^verbatim>\<open>key in self\<close> is false) fails with the builtin \<^verbatim>\<open>KeyError\<close>
  whose message \<^verbatim>\<open>"No field named <key>"\<close> is formatted from the identity; it is not a
  \<^verbatim>\<open>YTFieldNotFound\<close>. Every registry of the chain hands the error of its fallback on
  unchanged, so it reaches the caller; and a lookup fails in no other way.
\<close>

theorem lookup_absent_fails:
  "(\<not> contains r X \<longrightarrow> getitem r X = Inl (NoFieldNamed X)) \<and>
   (\<forall>e. getitem r X = Inl e \<longrightarrow>
      e = NoFieldNamed X \<and> \<not> is_YTFieldNotFound e \<and> \<not> contains r X)"
  using getitem_contains [of r X] by auto

theorem lookup_absent_fails_witness:
  "\<not> contains (Registry [(Tup ''io'' ''mass'', df1)]
                 (Some (Registry [(Tup ''gas'' ''density'', df2)] None)))
               (Tup ''gas'' ''magnetic_field_x'') \<and>
   getitem (Registry [(Tup ''io'' ''mass'', df1)]
              (Some (Registry [(Tup ''gas'' ''density'', df2)] None)))
           (Tup ''gas'' ''magnetic_field_x'') = Inl (NoFieldNamed (Tup ''gas'' ''magnetic_field_x''))"
  using lookup_absent_fails
          [of "Registry [(Tup ''io'' ''mass'', df1)]
                 (Some (Registry [(Tup ''gas'' ''density'', df2)] None))"
              "Tup ''gas'' ''magnetic_field_x''"]
  by simp

section \<open>Fluid aliases on a curvilinear dataset\<close>

text \<open>
  C1. The claim is that an alias ending in \<^verbatim>\<open>_x\<close>, \<^verbatim>\<open>_y\<close> or \<^verbatim>\<open>_z\<close> is remapped only when
  all three siblings are among the declared aliases. The code does not check this: the
  flag \<^verbatim>\<open>to_convert\<close> is set to \<^verbatim>\<open>True\<close> after the sibling loop whatever the loop found, so
  the flag depends on the suffix alone. With the catalog aliases \<^verbatim>\<open>foo_x\<close> and \<^verbatim>\<open>foo_y\<close> (no
  \<^verbatim>\<open>foo_z\<close>) on axes \<^verbatim>\<open>r, theta, phi\<close> the container registers \<^verbatim>\<open>foo_r\<close> and \<^verbatim>\<open>foo_theta\<close>,
  and no \<^verbatim>\<open>foo_x\<close>.
\<close>

theorem incomplete_triple_remapped:
  "(\<forall>aliases_gallery a b.
      to_convert_of aliases_gallery a b = (last2 a \<in> set [''_x'', ''_y'', ''_z''])) \<and>
   (\<exists>st. setup_fluid_aliases
            (fresh_state True [Tup ''gas'' ''velocity'']
               [(''velocity'', ''cm/s'', [''foo_x'', ''foo_y''], None)]) ''gas'' = Inr st \<and>
         map fst (local (self st)) =
           [Tup ''gas'' ''velocity'', Tup ''gas'' ''foo_r'', Tup ''gas'' ''foo_theta''])"
proof
  show "\<forall>aliases_gallery a b.
      to_convert_of aliases_gallery a b = (last2 a \<in> set [''_x'', ''_y'', ''_z''])"
    by (simp add: to_convert_of_def)
next
  show "\<exists>st. setup_fluid_aliases
            (fresh_state True [Tup ''gas'' ''velocity'']
               [(''velocity'', ''cm/s'', [''foo_x'', ''foo_y''], None)]) ''gas'' = Inr st \<and>
         map fst (local (self st)) =
           [Tup ''gas'' ''velocity'', Tup ''gas'' ''foo_r'', Tup ''gas'' ''foo_theta'']"
    by (simp add: setup_fluid_aliases_def get_aliases_gallery_def fresh_state_def
          spherical_ds_def sorted_fields_def known_get_def field_units_get_def
          resolve_units_def add_output_field_def store_def to_convert_of_def last2_def
          but_last2_def convert_alias_def axis_name_def DerivedField_def
          add_field.simps alias_field.simps)
qed

section \<open>Dependency validation\<close>

subsection \<open>Example data\<close>

text \<open>
  A collaborator for the examples: a definition labelled \<open>needs_B\<close> requests a magnetic
  field, one labelled \<open>not_found\<close> raises \<^verbatim>\<open>YTFieldNotFound\<close>, one labelled \<open>broken\<close> raises
  another exception, and any other derived definition requests the density; none of
  them looks at the registry. Sets iterate in the order of insertion and no plug-in is
  registered.
\<close>

definition example_env :: env where
  "example_env =
     \<lparr>get_dependencies =
        (\<lambda>fi r d. case df_function fi of
                  NullFunc \<Rightarrow> Inr [df_name fi]
                | TranslationFunc orig \<Rightarrow> Inr [orig]
                | Callable c \<Rightarrow>
                    if c = ''needs_B'' then Inr [Tup ''gas'' ''magnetic_field_x'']
                    else if c = ''not_found'' then Inl (YTFieldNotFound (Tup ''gas'' ''nonexistent''))
                    else if c = ''broken'' then Inl (OtherException ''ZeroDivisionError'')
                    else Inr [Tup ''gas'' ''density'']),
      set_order = (\<lambda>xs. xs), items_order = (\<lambda>xs. xs), field_plugins = []\<rparr>"

text \<open>
  A collaborator that resolves one field through another: the definition labelled
  \<open>uses_alfven\<close> is computed from the field \<^verbatim>\<open>("gas", "alfven_speed")\<close>; its discovery
  looks that field up in the registry and raises \<^verbatim>\<open>YTFieldNotFound\<close> when it is not
  registered.
\<close>

definition chained_env :: env where
  "chained_env =
     example_env\<lparr>get_dependencies :=
       (\<lambda>fi r d. if df_function fi = Callable ''uses_alfven'' then
                    (if contains r (Tup ''gas'' ''alfven_speed'') then Inr [Tup ''gas'' ''density'']
                     else Inl (YTFieldNotFound (Tup ''gas'' ''alfven_speed'')))
                  else get_dependencies example_env fi r d)\<rparr>"

text \<open>
  A collaborator like the last one, except that the discovery of the definition labelled
  \<open>uses_alfven\<close> looks \<^verbatim>\<open>("gas", "alfven_speed")\<close> up in the container itself and lets the
  error of the lookup through.
\<close>

definition lookup_env :: env where
  "lookup_env =
     example_env\<lparr>get_dependencies :=
       (\<lambda>fi r d. if df_function fi = Callable ''uses_alfven'' then
                    (case getitem r (Tup ''gas'' ''alfven_speed'') of
                       Inl e \<Rightarrow> Inl e
                     | Inr orig \<Rightarrow> Inr [Tup ''gas'' ''density''])
                  else get_dependencies example_env fi r d)\<rparr>"

definition derived :: "nat \<Rightarrow> string \<Rightarrow> string \<Rightarrow> fieldname \<times> derived_field" where
  "derived i n c = (Tup ''gas'' n, DerivedField i (Tup ''gas'' n) ''cell'' (Callable c) no_kwargs)"

text \<open>A container with the given dict, no fallback, and the density as its only on-disk field.\<close>

definition registry_state :: "fdict \<Rightarrow> state" where
  "registry_state d = (fresh_state False [Tup ''gas'' ''density''] [])\<lparr>self := Registry d None\<rparr>"

text \<open>A container as \<open>registry_state\<close>, on a dataset that is flagged as a field-test dataset.\<close>

definition field_test_state :: "fdict \<Rightarrow> state" where
  "field_test_state d = (registry_state d)\<lparr>ds := spherical_ds\<lparr>field_test_dataset := True\<rparr>\<rparr>"

text \<open>What a call of \<^verbatim>\<open>check_derived_fields\<close> leaves: the local keys, and the two values returned.\<close>

definition outcome ::
    "error + state \<times> deps \<times> fieldname list \<Rightarrow> error + fieldname list \<times> deps \<times> fieldname list" where
  "outcome r =
     (case r of
        Inl e \<Rightarrow> Inl e
      | Inr (st, deps, unavailable) \<Rightarrow> Inr (map fst (local (self st)), deps, unavailable))"

definition registered :: "error + state \<Rightarrow> error + fieldname list" where
  "registered r = (case r of Inl e \<Rightarrow> Inl e | Inr st \<Rightarrow> Inr (map fst (local (self st))))"

text \<open>The pass run once more on what a first pass left.\<close>

definition second_pass ::
    "env \<Rightarrow> error + state \<times> deps \<times> fieldname list \<Rightarrow> error + state \<times> deps \<times> fieldname list" where
  "second_pass E r =
     (case r of
        Inl e \<Rightarrow> Inl e
      | Inr (st, deps, unavailable) \<Rightarrow> check_derived_fields E st None)"

subsection \<open>What one pass computes\<close>

text \<open>
  \<open>requested_of E st k\<close> is the list \<^verbatim>\<open>requested\<close> that dependency discovery finds for the
  definition registered under \<open>k\<close>, when the lookup and the discovery succeed; \<open>k\<close> is
  available when all of it is on disk. \<open>drop_local\<close> is the registry after a successful
  \<^verbatim>\<open>pop\<close>.
\<close>

definition requested_of :: "env \<Rightarrow> state \<Rightarrow> fieldname \<Rightarrow> fieldname list option" where
  "requested_of E st k =
     (case getitem (self st) k of
        Inl e \<Rightarrow> None
      | Inr fi \<Rightarrow>
          (case get_dependencies E fi (self st) (ds st) of
             Inl e \<Rightarrow> None
           | Inr req \<Rightarrow> Some req))"

definition available :: "env \<Rightarrow> state \<Rightarrow> fieldname \<Rightarrow> bool" where
  "available E st k =
     (case requested_of E st k of
        None \<Rightarrow> False
      | Some req \<Rightarrow> list_all (\<lambda>f. f \<in> set (field_list st)) req)"

text \<open>
  A discovery is blind to the registry when its result for a definition does not depend
  on which definitions are registered.
\<close>

definition registry_blind :: "env \<Rightarrow> bool" where
  "registry_blind E \<longleftrightarrow>
     (\<forall>fi r r' d. get_dependencies E fi r' d = get_dependencies E fi r d)"

definition drop_local :: "fieldname \<Rightarrow> registry \<Rightarrow> registry" where
  "drop_local k r = Registry (AList.delete k (local r)) (fallback r)"

definition kept_local :: "env \<Rightarrow> state \<Rightarrow> fieldname list \<Rightarrow> fdict" where
  "kept_local E st ks = filter (\<lambda>(k, v). k \<in> set ks \<longrightarrow> available E st k) (local (self st))"

definition new_deps :: "env \<Rightarrow> state \<Rightarrow> fieldname list \<Rightarrow> deps" where
  "new_deps E st ks = map (\<lambda>k. (k, set (the (requested_of E st k)))) (filter (available E st) ks)"

definition new_unavailable :: "env \<Rightarrow> state \<Rightarrow> fieldname list \<Rightarrow> fieldname list" where
  "new_unavailable E st ks =
     filter (\<lambda>k. requested_of E st k \<noteq> None \<and> \<not> available E st k) ks"

lemmas example_defs = check_derived_fields_def fields_or_keys_def check_field_def example_env_def
  chained_env_def second_pass_def registry_state_def fresh_state_def spherical_ds_def derived_def DerivedField_def no_kwargs_def
  publish_def outcome_def drop_local_def registered_def

text \<open>
  C7. The claim says that the lookup of an absent identity fails with a FieldNotFound
  error. The error is the builtin \<^verbatim>\<open>KeyError\<close>, which is not the class \<^verbatim>\<open>YTFieldNotFound\<close>
  that the validation pass tests for, and the pass tells the two apart: on a field-test
  dataset a discovery that fails with the error of a lookup makes the pass raise, where
  one that fails with \<^verbatim>\<open>YTFieldNotFound\<close> has its field dropped and the pass returns.
\<close>

theorem lookup_error_not_field_not_found:
  "getitem (Registry [(Tup ''io'' ''mass'', df1)]
              (Some (Registry [(Tup ''gas'' ''density'', df2)] None)))
           (Tup ''gas'' ''alfven_speed'') = Inl (NoFieldNamed (Tup ''gas'' ''alfven_speed'')) \<and>
   \<not> is_YTFieldNotFound (NoFieldNamed (Tup ''gas'' ''alfven_speed'')) \<and>
   outcome (check_derived_fields lookup_env
              (field_test_state [derived 0 ''beta'' ''uses_alfven'']) None) =
     Inl (NoFieldNamed (Tup ''gas'' ''alfven_speed'')) \<and>
   outcome (check_derived_fields chained_env
              (field_test_state [derived 0 ''beta'' ''uses_alfven'']) None) =
     Inr ([], [], [])"
  by (simp add: example_defs lookup_env_def field_test_state_def)

lemma keys_local: "keys r = Inr ks \<Longrightarrow> ks = map fst (local r)"
  by (cases r) (auto split: option.splits if_splits sum.splits)

lemma check_loop_append:
  "check_loop E (xs @ ys) s =
     (case check_loop E xs s of Inl e \<Rightarrow> Inl e | Inr s' \<Rightarrow> check_loop E ys s')"
  by (induction xs arbitrary: s) (auto split: sum.splits)

lemma pop_Inr: "pop r k = Inr r' \<longleftrightarrow> k \<in> fst ` set (local r) \<and> r' = drop_local k r"
  by (cases r) (auto simp: drop_local_def)

lemma getitem_drop_local: "k' \<noteq> k \<Longrightarrow> getitem (drop_local k r) k' = getitem r k'"
  by (cases r) (simp add: drop_local_def delete_conv')

lemma local_drop_local [simp]: "local (drop_local k r) = AList.delete k (local r)"
  by (simp add: drop_local_def)

lemma fallback_drop_local [simp]: "fallback (drop_local k r) = fallback r"
  by (simp add: drop_local_def)


lemma keys_update: "fst ` set (AList.update k v d) = insert k (fst ` set d)"
  by (induction d) auto

lemma keys_delete: "fst ` set (AList.delete k d) = fst ` set d - {k}"
  by (induction d) auto


lemma check_field_cases:
  assumes "check_field E k (st, deps, un) = Inr s'"
  obtains
    (kept) req where "requested_of E st k = Some req" "available E st k"
      "s' = (st\<lparr>mylog := mylog st @ [Debug_succeeded k (set req)]\<rparr>,
             AList.update k (set req) deps, un)"
  | (missing) req where "requested_of E st k = Some req" "\<not> available E st k"
      "k \<in> fst ` set (local (self st))"
      "s' = (st\<lparr>self := drop_local k (self st)\<rparr>, deps, un @ [k])"
  | (raised) lg where "requested_of E st k = None" "\<not> available E st k"
      "k \<in> fst ` set (local (self st))"
      "s' = (st\<lparr>mylog := mylog st @ lg, self := drop_local k (self st)\<rparr>, deps, un)"
proof -
  from assms obtain fi where fi: "getitem (self st) k = Inr fi"
    by (auto simp: check_field_def split: sum.splits)
  show thesis
  proof (cases "get_dependencies E fi (self st) (ds st)")
    case (Inr req)
    with fi have r: "requested_of E st k = Some req" by (simp add: requested_of_def)
    show thesis
    proof (cases "available E st k")
      case True
      with r fi Inr assms show thesis
        by (intro kept [of req]) (auto simp: check_field_def available_def)
    next
      case False
      with r fi Inr assms show thesis
        by (intro missing [of req])
           (auto simp: check_field_def available_def pop_Inr split: sum.splits)
    qed
  next
    case (Inl e)
    with fi have r: "requested_of E st k = None" by (simp add: requested_of_def)
    then have na: "\<not> available E st k" by (simp add: available_def)
    show thesis
    proof (cases "is_YTFieldNotFound e")
      case True
      with fi Inl assms r na show thesis
        by (intro raised [of "[]"])
           (auto simp: check_field_def pop_Inr split: sum.splits if_splits)
    next
      case False
      with fi Inl assms r na show thesis
        by (intro raised [of "[Debug_raises e k]"])
           (auto simp: check_field_def pop_Inr split: sum.splits if_splits)
    qed
  qed
qed

lemma registry_blindD:
  "registry_blind E \<Longrightarrow> get_dependencies E fi r' d = get_dependencies E fi r d"
  unfolding registry_blind_def by blast

lemma requested_of_cong:
  assumes "registry_blind E" "getitem (self st') k = getitem (self st) k" "ds st' = ds st"
  shows "requested_of E st' k = requested_of E st k"
  unfolding requested_of_def assms(2,3)
    registry_blindD [OF assms(1), of _ "self st'" "ds st" "self st"]
  by (rule refl)

lemma requested_of_mylog: "requested_of E (st\<lparr>mylog := l\<rparr>) k = requested_of E st k"
  by (simp add: requested_of_def cong: sum.case_cong)

lemma available_mylog: "available E (st\<lparr>mylog := l\<rparr>) k = available E st k"
  by (simp add: available_def requested_of_mylog cong: option.case_cong)

lemma available_cong:
  assumes "registry_blind E" "getitem (self st') k = getitem (self st) k" "ds st' = ds st"
    "field_list st' = field_list st"
  shows "available E st' k = available E st k"
  unfolding available_def requested_of_cong [OF assms(1-3)] assms(4) by (rule refl)

lemma update_fresh: "k \<notin> fst ` set d \<Longrightarrow> AList.update k v d = d @ [(k, v)]"
  by (induction d) auto

lemma kept_local_Cons_kept:
  assumes "available E st k" "\<And>k'. k' \<in> set ks \<Longrightarrow> available E st1 k' = available E st k'"
    "local (self st1) = local (self st)"
  shows "kept_local E st1 ks = kept_local E st (k # ks)"
proof -
  have "filter (\<lambda>(k', v). k' \<in> set ks \<longrightarrow> available E st1 k') (local (self st)) =
        filter (\<lambda>(k', v). k' \<in> set (k # ks) \<longrightarrow> available E st k') (local (self st))"
  proof (rule filter_cong [OF refl])
    fix x assume "x \<in> set (local (self st))"
    show "(case x of (k', v) \<Rightarrow> k' \<in> set ks \<longrightarrow> available E st1 k') =
          (case x of (k', v) \<Rightarrow> k' \<in> set (k # ks) \<longrightarrow> available E st k')"
      using assms(1,2) by (cases x) auto
  qed
  then show ?thesis by (simp add: kept_local_def assms(3))
qed

lemma kept_local_Cons_dropped:
  assumes "\<not> available E st k" "\<And>k'. k' \<in> set ks \<Longrightarrow> available E st1 k' = available E st k'"
    "local (self st1) = AList.delete k (local (self st))"
  shows "kept_local E st1 ks = kept_local E st (k # ks)"
proof -
  have "filter (\<lambda>x. (case x of (k', v) \<Rightarrow> k \<noteq> k') \<and>
                     (case x of (k', v) \<Rightarrow> k' \<in> set ks \<longrightarrow> available E st1 k'))
          (local (self st)) =
        filter (\<lambda>(k', v). k' \<in> set (k # ks) \<longrightarrow> available E st k') (local (self st))"
  proof (rule filter_cong [OF refl])
    fix x assume "x \<in> set (local (self st))"
    show "((case x of (k', v) \<Rightarrow> k \<noteq> k') \<and>
           (case x of (k', v) \<Rightarrow> k' \<in> set ks \<longrightarrow> available E st1 k')) =
          (case x of (k', v) \<Rightarrow> k' \<in> set (k # ks) \<longrightarrow> available E st k')"
      using assms(1,2) by (cases x) auto
  qed
  then show ?thesis by (simp add: kept_local_def assms(3) AList.delete_eq)
qed

lemma new_deps_Cons:
  assumes "\<And>k'. k' \<in> set ks \<Longrightarrow> available E st1 k' = available E st k'"
    "\<And>k'. k' \<in> set ks \<Longrightarrow> requested_of E st1 k' = requested_of E st k'"
  shows "new_deps E st (k # ks) =
         (if available E st k then [(k, set (the (requested_of E st k)))] else []) @
         new_deps E st1 ks"
proof -
  have "filter (available E st1) ks = filter (available E st) ks"
    by (rule filter_cong [OF refl]) (simp add: assms(1))
  moreover have "map (\<lambda>k. (k, set (the (requested_of E st1 k)))) (filter (available E st) ks) =
      map (\<lambda>k. (k, set (the (requested_of E st k)))) (filter (available E st) ks)"
    by (rule map_cong [OF refl]) (simp add: assms(2))
  ultimately show ?thesis by (simp add: new_deps_def)
qed

lemma new_unavailable_Cons:
  assumes "\<And>k'. k' \<in> set ks \<Longrightarrow> available E st1 k' = available E st k'"
    "\<And>k'. k' \<in> set ks \<Longrightarrow> requested_of E st1 k' = requested_of E st k'"
  shows "new_unavailable E st (k # ks) =
         (if requested_of E st k \<noteq> None \<and> \<not> available E st k then [k] else []) @
         new_unavailable E st1 ks"
proof -
  have "filter (\<lambda>k. requested_of E st1 k \<noteq> None \<and> \<not> available E st1 k) ks =
        filter (\<lambda>k. requested_of E st k \<noteq> None \<and> \<not> available E st k) ks"
    by (rule filter_cong [OF refl]) (simp add: assms)
  then show ?thesis by (simp add: new_unavailable_def)
qed

lemma check_loop_result:
  assumes "check_loop E ks (st, deps, un) = Inr (st', deps', un')"
    and "distinct ks" and "set ks \<inter> fst ` set deps = {}"
    and blind: "registry_blind E"
  shows "self st' = Registry (kept_local E st ks) (fallback (self st)) \<and>
         deps' = deps @ new_deps E st ks \<and>
         un' = un @ new_unavailable E st ks \<and>
         ds st' = ds st \<and> field_list st' = field_list st \<and>
         show_field_errors st' = show_field_errors st"
  using assms(1-3)
proof (induction ks arbitrary: st deps un)
  case Nil
  then show ?case by (cases "self st") (simp add: kept_local_def new_deps_def new_unavailable_def)
next
  case (Cons k ks)
  from Cons.prems(1) obtain s1 where s1: "check_field E k (st, deps, un) = Inr s1"
    and rest: "check_loop E ks s1 = Inr (st', deps', un')"
    by (auto split: sum.splits)
  from Cons.prems(2) have dk: "k \<notin> set ks" "distinct ks" by auto
  from Cons.prems(3) have fresh: "k \<notin> fst ` set deps" "set ks \<inter> fst ` set deps = {}" by auto
  from s1 show ?case
  proof (cases rule: check_field_cases)
    case (kept req)
    define st1 where "st1 = st\<lparr>mylog := mylog st @ [Debug_succeeded k (set req)]\<rparr>"
    have r: "\<And>k'. requested_of E st1 k' = requested_of E st k'"
      and a: "\<And>k'. available E st1 k' = available E st k'"
      by (simp_all add: st1_def requested_of_mylog available_mylog)
    have frame: "local (self st1) = local (self st)" "fallback (self st1) = fallback (self st)"
      "ds st1 = ds st" "field_list st1 = field_list st" "show_field_errors st1 = show_field_errors st"
      by (simp_all add: st1_def)
    have d1: "AList.update k (set req) deps = deps @ [(k, set req)]"
      using fresh(1) by (rule update_fresh)
    have f1: "set ks \<inter> fst ` set (deps @ [(k, set req)]) = {}" using fresh(2) dk(1) by auto
    have run: "check_loop E ks (st1, deps @ [(k, set req)], un) = Inr (st', deps', un')"
      using rest kept(3) d1 by (simp add: st1_def)
    note IH = Cons.IH [OF run dk(2) f1]
    have "kept_local E st1 ks = kept_local E st (k # ks)"
      using kept(2) a frame(1) by (rule kept_local_Cons_kept)
    moreover have "new_deps E st (k # ks) = [(k, set req)] @ new_deps E st1 ks"
      using new_deps_Cons [of ks E st1 st k] a r kept(1,2) by simp
    moreover have "new_unavailable E st (k # ks) = new_unavailable E st1 ks"
      using new_unavailable_Cons [of ks E st1 st k] a r kept(1,2) by simp
    ultimately show ?thesis using IH frame by simp
  next
    case (missing req)
    define st1 where "st1 = st\<lparr>self := drop_local k (self st)\<rparr>"
    have r: "\<And>k'. k' \<in> set ks \<Longrightarrow> requested_of E st1 k' = requested_of E st k'"
      and a: "\<And>k'. k' \<in> set ks \<Longrightarrow> available E st1 k' = available E st k'"
    proof -
      fix k' assume "k' \<in> set ks"
      with dk(1) have ne: "k' \<noteq> k" by auto
      have g: "getitem (self st1) k' = getitem (self st) k'"
        using getitem_drop_local [OF ne] by (simp add: st1_def)
      have d: "ds st1 = ds st" "field_list st1 = field_list st" by (simp_all add: st1_def)
      show "requested_of E st1 k' = requested_of E st k'"
        using blind g d(1) by (rule requested_of_cong)
      show "available E st1 k' = available E st k'"
        using blind g d by (rule available_cong)
    qed
    have frame: "local (self st1) = AList.delete k (local (self st))"
      "fallback (self st1) = fallback (self st)"
      "ds st1 = ds st" "field_list st1 = field_list st" "show_field_errors st1 = show_field_errors st"
      by (simp_all add: st1_def)
    have run: "check_loop E ks (st1, deps, un @ [k]) = Inr (st', deps', un')"
      using rest missing(4) by (simp add: st1_def)
    note IH = Cons.IH [OF run dk(2) fresh(2)]
    have "kept_local E st1 ks = kept_local E st (k # ks)"
      using missing(2) a frame(1) by (rule kept_local_Cons_dropped)
    moreover have "new_deps E st (k # ks) = new_deps E st1 ks"
      using new_deps_Cons [of ks E st1 st k] a r missing(1,2) by simp
    moreover have "new_unavailable E st (k # ks) = [k] @ new_unavailable E st1 ks"
      using new_unavailable_Cons [of ks E st1 st k] a r missing(1,2) by simp
    ultimately show ?thesis using IH frame by simp
  next
    case (raised lg)
    define st1 where "st1 = st\<lparr>mylog := mylog st @ lg, self := drop_local k (self st)\<rparr>"
    have r: "\<And>k'. k' \<in> set ks \<Longrightarrow> requested_of E st1 k' = requested_of E st k'"
      and a: "\<And>k'. k' \<in> set ks \<Longrightarrow> available E st1 k' = available E st k'"
    proof -
      fix k' assume "k' \<in> set ks"
      with dk(1) have ne: "k' \<noteq> k" by auto
      have g: "getitem (self st1) k' = getitem (self st) k'"
        using getitem_drop_local [OF ne] by (simp add: st1_def)
      have d: "ds st1 = ds st" "field_list st1 = field_list st" by (simp_all add: st1_def)
      show "requested_of E st1 k' = requested_of E st k'"
        using blind g d(1) by (rule requested_of_cong)
      show "available E st1 k' = available E st k'"
        using blind g d by (rule available_cong)
    qed
    have frame: "local (self st1) = AList.delete k (local (self st))"
      "fallback (self st1) = fallback (self st)"
      "ds st1 = ds st" "field_list st1 = field_list st" "show_field_errors st1 = show_field_errors st"
      by (simp_all add: st1_def)
    have run: "check_loop E ks (st1, deps, un) = Inr (st', deps', un')"
      using rest raised(4) by (simp add: st1_def)
    note IH = Cons.IH [OF run dk(2) fresh(2)]
    have "kept_local E st1 ks = kept_local E st (k # ks)"
      using raised(2) a frame(1) by (rule kept_local_Cons_dropped)
    moreover have "new_deps E st (k # ks) = new_deps E st1 ks"
      using new_deps_Cons [of ks E st1 st k] a r raised(1,2) by simp
    moreover have "new_unavailable E st (k # ks) = new_unavailable E st1 ks"
      using new_unavailable_Cons [of ks E st1 st k] a r raised(1,2) by simp
    ultimately show ?thesis using IH frame by simp
  qed
qed

lemma check_field_mono:
  assumes "check_field E k (st, deps, un) = Inr (st', deps', un')"
  shows "fst ` set (local (self st')) \<subseteq> fst ` set (local (self st)) \<and>
         set un \<subseteq> set un' \<and> fst ` set deps' \<subseteq> insert k (fst ` set deps)"
  using assms by (cases rule: check_field_cases) (auto simp: keys_update keys_delete)

lemma check_loop_mono:
  assumes "check_loop E ks (st, deps, un) = Inr (st', deps', un')"
  shows "fst ` set (local (self st')) \<subseteq> fst ` set (local (self st)) \<and>
         set un \<subseteq> set un' \<and> fst ` set deps' \<subseteq> set ks \<union> fst ` set deps"
  using assms
proof (induction ks arbitrary: st deps un)
  case Nil
  then show ?case by simp
next
  case (Cons k ks)
  from Cons.prems obtain st1 deps1 un1 where
    1: "check_field E k (st, deps, un) = Inr (st1, deps1, un1)"
    and 2: "check_loop E ks (st1, deps1, un1) = Inr (st', deps', un')"
    by (auto split: sum.splits)
  from check_field_mono [OF 1] have a: "fst ` set (local (self st1)) \<subseteq> fst ` set (local (self st))"
    "set un \<subseteq> set un1" "fst ` set deps1 \<subseteq> insert k (fst ` set deps)" by simp_all
  from Cons.IH [OF 2] have b: "fst ` set (local (self st')) \<subseteq> fst ` set (local (self st1))"
    "set un1 \<subseteq> set un'" "fst ` set deps' \<subseteq> set ks \<union> fst ` set deps1" by simp_all
  have c: "set (k # ks) = insert k (set ks)" by simp
  from a(1) b(1) have "fst ` set (local (self st')) \<subseteq> fst ` set (local (self st))" by blast
  moreover from a(2) b(2) have "set un \<subseteq> set un'" by blast
  moreover from a(3) b(3) have "fst ` set deps' \<subseteq> set (k # ks) \<union> fst ` set deps"
    unfolding c by blast
  ultimately show ?case by blast
qed

lemma check_derived_fields_Inr:
  assumes "check_derived_fields E st ftc = Inr (st', deps, un)"
  obtains fs st1 where "fields_or_keys st ftc = Inr fs"
    "check_loop E fs (st, [], []) = Inr (st1, deps, un)"
    "st' = st1\<lparr>ds := publish E (ds st1) deps\<rparr>"
  using assms by (auto simp: check_derived_fields_def split: sum.splits)

lemma available_iff:
  "available E st k \<longleftrightarrow>
     (\<exists>req. requested_of E st k = Some req \<and> set req \<subseteq> set (field_list st))"
  by (auto simp: available_def list_all_iff split: option.splits)






lemma check_loop_Inl:
  "check_loop E pre s0 = Inr s \<Longrightarrow> check_field E field s = Inl e \<Longrightarrow>
   check_loop E (pre @ field # post) s0 = Inl e"
  by (simp add: check_loop_append)


subsection \<open>The claims about one pass\<close>

text \<open>
  C10. \<^verbatim>\<open>check_derived_fields\<close> called with an empty list does what it does with no
  argument: it checks every identity of \<^verbatim>\<open>self.keys()\<close>, which (when that call returns) are
  the identities registered in the container's own dict. So when no plug-in of a
  \<^verbatim>\<open>load_all_plugins\<close> run has loaded a field, the run validates, and may prune, every
  registered field.
\<close>

theorem empty_list_checks_everything:
  "check_derived_fields E st (Some []) = check_derived_fields E st None \<and>
   (\<forall>ks. keys (self st) = Inr ks \<longrightarrow>
      ks = map fst (local (self st)) \<and>
      check_derived_fields E st (Some []) =
        (case check_loop E (map fst (local (self st))) (st, [], []) of
           Inl e \<Rightarrow> Inl e
         | Inr (st', deps, unavailable) \<Rightarrow>
             Inr (st'\<lparr>ds := publish E (ds st') deps\<rparr>, deps, unavailable))) \<and>
   (\<forall>st'. plugins_loop E ftype (sort (map fst (field_plugins E))) (st, []) = Inr (st', []) \<longrightarrow>
      load_all_plugins E st ftype =
        (case check_derived_fields E st' None of
           Inl e \<Rightarrow> Inl e
         | Inr (st'', deps, unavailable) \<Rightarrow>
             Inr (st''\<lparr>ds := publish E
                    ((ds st'')\<lparr>field_dependencies :=
                        dict_update (field_dependencies (ds st'')) deps\<rparr>) deps\<rparr>)))"
proof (intro conjI allI impI)
  show "check_derived_fields E st (Some []) = check_derived_fields E st None"
    by (simp add: check_derived_fields_def fields_or_keys_def)
next
  fix ks assume "keys (self st) = Inr ks"
  then show "ks = map fst (local (self st))" by (rule keys_local)
next
  fix ks assume k: "keys (self st) = Inr ks"
  from keys_local [OF k] k
  show "check_derived_fields E st (Some []) =
        (case check_loop E (map fst (local (self st))) (st, [], []) of
           Inl e \<Rightarrow> Inl e
         | Inr (st', deps, unavailable) \<Rightarrow>
             Inr (st'\<lparr>ds := publish E (ds st') deps\<rparr>, deps, unavailable))"
    by (simp add: check_derived_fields_def fields_or_keys_def)
next
  fix st' assume "plugins_loop E ftype (sort (map fst (field_plugins E))) (st, []) = Inr (st', [])"
  then show "load_all_plugins E st ftype =
        (case check_derived_fields E st' None of
           Inl e \<Rightarrow> Inl e
         | Inr (st'', deps, unavailable) \<Rightarrow>
             Inr (st''\<lparr>ds := publish E
                    ((ds st'')\<lparr>field_dependencies :=
                        dict_update (field_dependencies (ds st'')) deps\<rparr>) deps\<rparr>))"
    by (simp add: load_all_plugins_def find_dependencies_def check_derived_fields_def
          fields_or_keys_def split: sum.splits prod.splits)
qed

theorem empty_list_checks_everything_witness:
  "outcome (check_derived_fields example_env
              (registry_state [derived 0 ''pressure'' ''p'', derived 1 ''alfven'' ''needs_B''])
              (Some [])) =
     Inr ([Tup ''gas'' ''pressure''],
          [(Tup ''gas'' ''pressure'', {Tup ''gas'' ''density''})],
          [Tup ''gas'' ''alfven'']) \<and>
   registered (load_all_plugins example_env
                 (registry_state [derived 0 ''pressure'' ''p'', derived 1 ''alfven'' ''needs_B''])
                 ''gas'') =
     Inr [Tup ''gas'' ''pressure'']"
  using empty_list_checks_everything
          [of example_env
              "registry_state [derived 0 ''pressure'' ''p'', derived 1 ''alfven'' ''needs_B'']"
              "''gas''"]
  by (simp add: example_defs find_dependencies_def dict_update_def load_all_plugins_def)

text \<open>
  C3. Let a pass of \<^verbatim>\<open>check_derived_fields\<close> return, and let \<open>f\<close> be one of the fields it
  checks (each listed once) whose definition's requested list, as discovery finds it when
  the loop reaches \<open>f\<close>, is not contained in the on-disk field list. Then the definition
  of \<open>f\<close> is gone from the container's dict, \<open>f\<close> is in the returned list
  \<^verbatim>\<open>unavailable\<close>, and \<open>f\<close> is not a key of the returned dict \<^verbatim>\<open>deps\<close>. When discovery is
  blind to the registry, the requested list is the one found on the container as the pass
  starts.
\<close>

theorem unavailable_pruned:
  assumes "check_derived_fields E st fields_to_check = Inr (st', deps, unavailable)"
    and "fields_or_keys st fields_to_check = Inr fs" and "distinct fs"
  shows "(\<forall>pre post st1 deps1 un1 fi requested.
            fs = pre @ f # post \<and> check_loop E pre (st, [], []) = Inr (st1, deps1, un1) \<and>
            getitem (self st1) f = Inr fi \<and>
            get_dependencies E fi (self st1) (ds st1) = Inr requested \<and>
            \<not> set requested \<subseteq> set (field_list st1) \<longrightarrow>
            f \<notin> fst ` set (local (self st')) \<and> f \<in> set unavailable \<and> f \<notin> fst ` set deps) \<and>
         (\<forall>fi requested.
            registry_blind E \<and> f \<in> set fs \<and> getitem (self st) f = Inr fi \<and>
            get_dependencies E fi (self st) (ds st) = Inr requested \<and>
            \<not> set requested \<subseteq> set (field_list st) \<longrightarrow>
            f \<notin> fst ` set (local (self st')) \<and> f \<in> set unavailable \<and> f \<notin> fst ` set deps)"
proof -
  from assms(1) obtain fs' stL where 1: "fields_or_keys st fields_to_check = Inr fs'"
    "check_loop E fs' (st, [], []) = Inr (stL, deps, unavailable)"
    "st' = stL\<lparr>ds := publish E (ds stL) deps\<rparr>"
    by (rule check_derived_fields_Inr)
  with assms(2) have run: "check_loop E fs (st, [], []) = Inr (stL, deps, unavailable)" by simp
  have self': "self st' = self stL" using 1(3) by simp
  show ?thesis
  proof (rule conjI; intro allI impI)
    fix pre post st1 deps1 un1 fi requested
    assume a: "fs = pre @ f # post \<and> check_loop E pre (st, [], []) = Inr (st1, deps1, un1) \<and>
            getitem (self st1) f = Inr fi \<and>
            get_dependencies E fi (self st1) (ds st1) = Inr requested \<and>
            \<not> set requested \<subseteq> set (field_list st1)"
    from a assms(3) have nf: "f \<notin> set pre" "f \<notin> set post" by auto
    from a run obtain s2 where step: "check_field E f (st1, deps1, un1) = Inr s2"
      and rest: "check_loop E post s2 = Inr (stL, deps, unavailable)"
      by (auto simp: check_loop_append split: sum.splits)
    have r: "requested_of E st1 f = Some requested" using a by (simp add: requested_of_def)
    with a have na: "\<not> available E st1 f" by (simp add: available_iff)
    from step r na have s2: "s2 = (st1\<lparr>self := drop_local f (self st1)\<rparr>, deps1, un1 @ [f])"
      by (cases rule: check_field_cases) simp_all
    from a check_loop_mono [of E pre st "[]" "[]" st1 deps1 un1] nf(1)
    have d1: "f \<notin> fst ` set deps1" by auto
    from check_loop_mono [OF rest [unfolded s2]] nf(2) d1
    have "f \<notin> fst ` set (local (self stL)) \<and> f \<in> set unavailable \<and> f \<notin> fst ` set deps"
      by (auto simp: keys_delete)
    then show "f \<notin> fst ` set (local (self st')) \<and> f \<in> set unavailable \<and> f \<notin> fst ` set deps"
      by (simp add: self')
  next
    fix fi requested
    assume a: "registry_blind E \<and> f \<in> set fs \<and> getitem (self st) f = Inr fi \<and>
            get_dependencies E fi (self st) (ds st) = Inr requested \<and>
            \<not> set requested \<subseteq> set (field_list st)"
    then have blind: "registry_blind E" by simp
    from check_loop_result [OF run assms(3) _ blind]
    have res: "self stL = Registry (kept_local E st fs) (fallback (self st))"
      "deps = new_deps E st fs" "unavailable = new_unavailable E st fs" by simp_all
    have r: "requested_of E st f = Some requested"
      using a by (simp add: requested_of_def)
    with a have na: "\<not> available E st f" by (simp add: available_iff)
    have "f \<notin> fst ` set (kept_local E st fs)"
      using na a by (auto simp: kept_local_def)
    moreover have "f \<in> set (new_unavailable E st fs)"
      using na r a by (simp add: new_unavailable_def)
    moreover have "f \<notin> fst ` set (new_deps E st fs)"
      using na by (auto simp: new_deps_def)
    ultimately show "f \<notin> fst ` set (local (self st')) \<and> f \<in> set unavailable \<and>
        f \<notin> fst ` set deps"
      using res self' by simp
  qed
qed

theorem unavailable_pruned_witness:
  "\<exists>st' deps unavailable.
     check_derived_fields example_env
       (registry_state [derived 0 ''pressure'' ''p'', derived 1 ''alfven'' ''needs_B'']) None =
       Inr (st', deps, unavailable) \<and>
     Tup ''gas'' ''alfven'' \<notin> fst ` set (local (self st')) \<and>
     Tup ''gas'' ''alfven'' \<in> set unavailable \<and>
     Tup ''gas'' ''alfven'' \<notin> fst ` set deps"
proof -
  let ?S = "registry_state [derived 0 ''pressure'' ''p'', derived 1 ''alfven'' ''needs_B'']"
  let ?f = "Tup ''gas'' ''alfven''"
  have "\<exists>st' deps unavailable.
          check_derived_fields example_env ?S None = Inr (st', deps, unavailable)"
    by (simp add: example_defs)
  then obtain st' deps unavailable where
    run: "check_derived_fields example_env ?S None = Inr (st', deps, unavailable)" by blast
  have fk: "fields_or_keys ?S None = Inr [Tup ''gas'' ''pressure'', ?f]"
    by (simp add: example_defs)
  have dist: "distinct [Tup ''gas'' ''pressure'', ?f]" by simp
  have pre: "\<exists>st1 deps1 un1.
      check_loop example_env [Tup ''gas'' ''pressure''] (?S, [], []) = Inr (st1, deps1, un1) \<and>
      self st1 = self ?S \<and> ds st1 = ds ?S \<and> field_list st1 = field_list ?S"
    by (simp add: example_defs)
  then obtain st1 deps1 un1 where
    p: "check_loop example_env [Tup ''gas'' ''pressure''] (?S, [], []) = Inr (st1, deps1, un1)"
    and f: "self st1 = self ?S" "ds st1 = ds ?S" "field_list st1 = field_list ?S" by blast
  have "[Tup ''gas'' ''pressure'', ?f] = [Tup ''gas'' ''pressure''] @ ?f # [] \<and>
      check_loop example_env [Tup ''gas'' ''pressure''] (?S, [], []) = Inr (st1, deps1, un1) \<and>
      getitem (self st1) ?f = Inr (snd (derived 1 ''alfven'' ''needs_B'')) \<and>
      get_dependencies example_env (snd (derived 1 ''alfven'' ''needs_B'')) (self st1) (ds st1) =
        Inr [Tup ''gas'' ''magnetic_field_x''] \<and>
      \<not> set [Tup ''gas'' ''magnetic_field_x''] \<subseteq> set (field_list st1)"
    using p by (simp add: f) (simp add: example_defs)
  with unavailable_pruned [OF run fk dist, of ?f]
  have "?f \<notin> fst ` set (local (self st')) \<and> ?f \<in> set unavailable \<and> ?f \<notin> fst ` set deps"
    by blast
  with run show ?thesis by blast
qed




text \<open>
  C4. The claim says that a field-not-found error records the field in the unavailable
  list and never surfaces. The code drops the field without recording it, and lets the
  error through when the field is in \<^verbatim>\<open>_show_field_errors\<close>: validating one field whose
  discovery raises \<^verbatim>\<open>YTFieldNotFound\<close> returns an empty unavailable list, and with that
  field in the strict set the error reaches the caller.
\<close>

theorem not_found_not_recorded:
  "outcome (check_derived_fields example_env
              (registry_state [derived 0 ''x'' ''not_found'']) None) = Inr ([], [], []) \<and>
   check_derived_fields example_env
     ((registry_state [derived 0 ''x'' ''not_found''])\<lparr>show_field_errors := [Tup ''gas'' ''x'']\<rparr>)
     None = Inl (YTFieldNotFound (Tup ''gas'' ''nonexistent''))"
  by (simp add: example_defs)

text \<open>
  C4, as the code has it. Let discovery raise \<open>e\<close> for \<open>field\<close>, reached after the fields
  \<open>pre\<close> were checked. If \<open>field\<close> is in the strict set, or \<open>e\<close> is not a field-not-found
  error and the dataset is a field-test dataset, \<open>e\<close> reaches the caller of
  \<^verbatim>\<open>check_derived_fields\<close>. Otherwise a field-not-found error drops the field from the
  container's dict and changes nothing else (no log entry, no entry in \<^verbatim>\<open>unavailable\<close> or
  \<^verbatim>\<open>deps\<close>); any other error is logged at debug level and the field dropped in the same way.
\<close>

theorem discovery_error_policy:
  assumes "check_loop E pre (st0, [], []) = Inr (st, deps, un)"
    and "getitem (self st) field = Inr fi"
    and "get_dependencies E fi (self st) (ds st) = Inl e"
  shows "(field \<in> set (show_field_errors st) \<or>
            \<not> is_YTFieldNotFound e \<and> field_test_dataset (ds st) \<longrightarrow>
          check_derived_fields E st0 (Some (pre @ field # post)) = Inl e) \<and>
         (field \<notin> set (show_field_errors st) \<and> is_YTFieldNotFound e \<and>
            field \<in> fst ` set (local (self st)) \<longrightarrow>
          check_field E field (st, deps, un) =
            Inr (st\<lparr>self := drop_local field (self st)\<rparr>, deps, un)) \<and>
         (field \<notin> set (show_field_errors st) \<and> \<not> is_YTFieldNotFound e \<and>
            \<not> field_test_dataset (ds st) \<and> field \<in> fst ` set (local (self st)) \<longrightarrow>
          check_field E field (st, deps, un) =
            Inr (st\<lparr>mylog := mylog st @ [Debug_raises e field],
                    self := drop_local field (self st)\<rparr>, deps, un))"
proof (intro conjI impI)
  assume "field \<in> set (show_field_errors st) \<or>
            \<not> is_YTFieldNotFound e \<and> field_test_dataset (ds st)"
  with assms(2,3) have "check_field E field (st, deps, un) = Inl e"
    by (auto simp: check_field_def)
  with assms(1) have "check_loop E (pre @ field # post) (st0, [], []) = Inl e"
    by (rule check_loop_Inl)
  moreover have "fields_or_keys st0 (Some (pre @ field # post)) = Inr (pre @ field # post)"
    by (cases pre) (simp_all add: fields_or_keys_def)
  ultimately show "check_derived_fields E st0 (Some (pre @ field # post)) = Inl e"
    by (simp add: check_derived_fields_def)
next
  assume "field \<notin> set (show_field_errors st) \<and> is_YTFieldNotFound e \<and>
            field \<in> fst ` set (local (self st))"
  moreover have "pop (self st) field = Inr (drop_local field (self st))"
    if "field \<in> fst ` set (local (self st))" using that by (simp add: pop_Inr)
  ultimately show "check_field E field (st, deps, un) =
            Inr (st\<lparr>self := drop_local field (self st)\<rparr>, deps, un)"
    using assms(2,3) by (simp add: check_field_def)
next
  assume "field \<notin> set (show_field_errors st) \<and> \<not> is_YTFieldNotFound e \<and>
            \<not> field_test_dataset (ds st) \<and> field \<in> fst ` set (local (self st))"
  moreover have "pop (self st) field = Inr (drop_local field (self st))"
    if "field \<in> fst ` set (local (self st))" using that by (simp add: pop_Inr)
  ultimately show "check_field E field (st, deps, un) =
            Inr (st\<lparr>mylog := mylog st @ [Debug_raises e field],
                    self := drop_local field (self st)\<rparr>, deps, un)"
    using assms(2,3) by (simp add: check_field_def)
qed

theorem discovery_error_policy_witness:
  "check_field example_env (Tup ''gas'' ''x'')
     (registry_state [derived 0 ''x'' ''not_found''], [], []) =
     Inr ((registry_state [derived 0 ''x'' ''not_found''])\<lparr>self := Registry [] None\<rparr>, [], []) \<and>
   check_field example_env (Tup ''gas'' ''y'')
     (registry_state [derived 0 ''y'' ''broken''], [], []) =
     Inr ((registry_state [derived 0 ''y'' ''broken''])
            \<lparr>mylog := [Debug_raises (OtherException ''ZeroDivisionError'') (Tup ''gas'' ''y'')],
             self := Registry [] None\<rparr>, [], []) \<and>
   check_derived_fields example_env
     ((registry_state [derived 0 ''y'' ''broken''])\<lparr>show_field_errors := [Tup ''gas'' ''y'']\<rparr>)
     (Some [Tup ''gas'' ''y'']) = Inl (OtherException ''ZeroDivisionError'')"
  using discovery_error_policy
          [of example_env "[]" "registry_state [derived 0 ''x'' ''not_found'']"
              "registry_state [derived 0 ''x'' ''not_found'']" "[]" "[]" "Tup ''gas'' ''x''"
              "snd (derived 0 ''x'' ''not_found'')" "YTFieldNotFound (Tup ''gas'' ''nonexistent'')"
              "[]"]
        discovery_error_policy
          [of example_env "[]" "registry_state [derived 0 ''y'' ''broken'']"
              "registry_state [derived 0 ''y'' ''broken'']" "[]" "[]" "Tup ''gas'' ''y''"
              "snd (derived 0 ''y'' ''broken'')" "OtherException ''ZeroDivisionError''"
              "[]"]
        discovery_error_policy
          [of example_env "[]"
              "(registry_state [derived 0 ''y'' ''broken''])\<lparr>show_field_errors := [Tup ''gas'' ''y'']\<rparr>"
              "(registry_state [derived 0 ''y'' ''broken''])\<lparr>show_field_errors := [Tup ''gas'' ''y'']\<rparr>"
              "[]" "[]" "Tup ''gas'' ''y''"
              "snd (derived 0 ''y'' ''broken'')" "OtherException ''ZeroDivisionError''"
              "[]"]
  by (simp add: example_defs)

section \<open>Registering an identity twice\<close>

text \<open>One call of \<^verbatim>\<open>add_field\<close> after another, and the computing function then stored under a name.\<close>

definition and_then ::
    "error + state \<times> decorator option \<Rightarrow> (state \<Rightarrow> error + state \<times> decorator option) \<Rightarrow>
     error + state \<times> decorator option" where
  "and_then r f = (case r of Inl e \<Rightarrow> Inl e | Inr (st, d) \<Rightarrow> f st)"

definition function_at :: "error + state \<times> decorator option \<Rightarrow> fieldname \<Rightarrow> error + func" where
  "function_at r name =
     (case r of
        Inl e \<Rightarrow> Inl e
      | Inr (st, d) \<Rightarrow> (case getitem (self st) name of Inl e \<Rightarrow> Inl e | Inr fi \<Rightarrow> Inr (df_function fi)))"

lemma contains_store:
  "contains (self (store st name s f kw)) k \<longleftrightarrow> k = name \<or> contains (self st) k"
  by (simp add: contains_setitem)

lemma add_field_Name:
  assumes "\<not> (\<not> ov \<and> contains (self st) (Name n))"
    and "sanitize_sampling_type s (particle_type kw) = Inr stype"
    and "st0 = (if particle_type kw
                then st\<lparr>mylog := mylog st @ [Deprecation_particle_type]\<rparr> else st)"
    and "ftype = (if stype = ''particle'' then ''all'' else default_fluid_type (ds st0))"
  shows "add_field st (Name n) (Some f) s kw ov =
     (if \<not> contains (self st0) (Tup ftype n) then
        (case alias_field (store st0 (Tup ftype n) stype f kw) (Name n) (Tup ftype n) None of
           Inl e \<Rightarrow> Inl e
         | Inr st1 \<Rightarrow> Inr (st1, None))
      else Inr (store st0 (Name n) stype f kw, None))"
  using assms(1,2) unfolding assms(3,4) by (auto simp: add_field.simps Let_def)

lemma add_field_contains:
  "add_field st name fn s kw ov = Inr (st', r) \<Longrightarrow>
     (\<forall>k. contains (self st) k \<longrightarrow> contains (self st') k) \<and>
     (fn \<noteq> None \<longrightarrow> contains (self st') name)"
  "alias_field st a orig u = Inr st'' \<Longrightarrow>
     (\<forall>k. contains (self st) k \<longrightarrow> contains (self st'') k) \<and>
     (contains (self st) orig \<longrightarrow> contains (self st'') a)"
proof (induction st name fn s kw ov and st a orig u arbitrary: st' r and st''
       rule: add_field_alias_field.induct)
  case (1 st name fn sampling_type kw override)
  show ?case
  proof (cases "\<not> override \<and> contains (self st) name")
    case True
    with "1.prems" show ?thesis
      by (auto simp: add_field.simps split: option.splits)
  next
    case False
    show ?thesis
    proof (cases fn)
      case None
      with False "1.prems" show ?thesis by (auto simp: add_field.simps)
    next
      case (Some f)
      show ?thesis
      proof (cases name)
        case (Tup t n)
        with False Some "1.prems" show ?thesis
          by (auto simp: add_field.simps contains_setitem)
      next
        case (Name n)
        from False Some Name "1.prems" obtain stype where
          san: "sanitize_sampling_type sampling_type (particle_type kw) = Inr stype"
          by (auto simp: add_field.simps split: sum.splits)
        define st0 where "st0 = (if particle_type kw
            then st\<lparr>mylog := mylog st @ [Deprecation_particle_type]\<rparr> else st)"
        define ftype where "ftype = (if stype = ''particle'' then ''all''
            else default_fluid_type (ds st0))"
        have s0: "self st0 = self st" by (simp add: st0_def)
        have eq: "add_field st name fn sampling_type kw override =
           (if \<not> contains (self st0) (Tup ftype n) then
              (case alias_field (store st0 (Tup ftype n) stype f kw) (Name n) (Tup ftype n) None of
                 Inl e \<Rightarrow> Inl e
               | Inr st1 \<Rightarrow> Inr (st1, None))
            else Inr (store st0 (Name n) stype f kw, None))"
          unfolding Some Name using False [unfolded Name] san st0_def ftype_def
          by (rule add_field_Name)
        show ?thesis
        proof (cases "contains (self st0) (Tup ftype n)")
          case True
          with eq "1.prems" have "st' = store st0 name stype f kw"
            by (simp add: Name)
          then show ?thesis using s0 Some by (auto simp: contains_setitem)
        next
          case nc: False
          with eq "1.prems" have
            al: "alias_field (store st0 (Tup ftype n) stype f kw) name (Tup ftype n) None = Inr st'"
            by (simp add: Name split: sum.splits)
          from "1.IH" [OF False Some Name san st0_def ftype_def nc al]
          show ?thesis using s0 Some by (auto simp: contains_setitem)
        qed
      qed
    qed
  qed
next
  case (2 st alias_name original_name alias_units)
  show ?case
  proof (cases "contains (self st) original_name")
    case False
    with "2.prems" show ?thesis by (simp add: alias_field.simps)
  next
    case True
    from True "2.prems" obtain orig u st1 r1 where
      o: "getitem (self st) original_name = Inr orig"
      and u: "(case alias_units of
            None \<Rightarrow>
              case unit_dimensions (ds st) (df_units orig) of Inl x \<Rightarrow> Inl x
              | Inr None \<Rightarrow> Inr (df_units orig)
              | Inr (Some dims) \<Rightarrow> Inr (Some (unit_system (ds st) dims))
            | Some u \<Rightarrow> Inr (Some u)) = Inr u"
      and a: "add_field (st\<lparr>field_aliases :=
                      AList.update alias_name original_name (field_aliases st)\<rparr>)
              alias_name (Some (TranslationFunc original_name)) (df_sampling_type orig)
              \<lparr>units = u, display_name = df_display_name orig,
                 output_units = None, particle_type = False\<rparr> False = Inr (st1, r1)"
      and st1: "st'' = st1"
      by (simp add: alias_field.simps split: sum.splits prod.splits)
    from "2.IH" [OF _ o u a] True show ?thesis by (simp add: st1)
  qed
qed

lemma getitem_setitem: "getitem (setitem r k v) k = Inr v"
  by (cases r) (simp add: update_conv')

lemma lower_examples:
  "lower ''cell'' = ''cell''" "lower ''Cell'' = ''cell''" "lower ''particle'' = ''particle''"
  "lower ''Particle'' = ''particle''"
  by code_simp+

lemmas add_field_example_defs = function_at_def and_then_def fresh_state_def spherical_ds_def
  no_kwargs_def sanitize_sampling_type_def lower_examples store_def DerivedField_def
  Let_def add_field.simps alias_field.simps

lemma getitem_setitem_other: "k' \<noteq> k \<Longrightarrow> getitem (setitem r k v) k' = getitem r k'"
  by (cases r) (simp add: update_conv')

lemma sanitize_sampling_type_idem:
  assumes "sanitize_sampling_type s p = Inr stype"
  shows "sanitize_sampling_type stype False = Inr stype"
proof -
  have l: "lower ''cell'' = ''cell''" "lower ''particle'' = ''particle''"
    "lower ''local'' = ''local''"
    by code_simp+
  from assms have "stype = ''cell'' \<or> stype = ''particle'' \<or> stype = ''local''"
    by (auto simp: sanitize_sampling_type_def Let_def split: if_splits)
  then show ?thesis using l by (auto simp: sanitize_sampling_type_def Let_def)
qed

text \<open>
  \<^verbatim>\<open>alias(name, (ftype, name))\<close>, as \<^verbatim>\<open>add_field\<close> calls it for a bare name, leaves the
  definition under \<^verbatim>\<open>(ftype, name)\<close> and the dataset as they are.
\<close>

lemma alias_field_qualified:
  assumes o: "getitem (self st) (Tup t n) = Inr orig"
    and san: "sanitize_sampling_type (df_sampling_type orig) False = Inr stype"
    and t: "t = (if stype = ''particle'' then ''all'' else default_fluid_type (ds st))"
    and run: "alias_field st (Name n) (Tup t n) None = Inr st2"
  shows "getitem (self st2) (Tup t n) = Inr orig \<and> ds st2 = ds st"
proof -
  from o have c: "contains (self st) (Tup t n)"
    using getitem_contains [of "self st" "Tup t n"] by auto
  define sta where
    "sta = st\<lparr>field_aliases := AList.update (Name n) (Tup t n) (field_aliases st)\<rparr>"
  have sa: "self sta = self st" "ds sta = ds st" by (simp_all add: sta_def)
  from run c o obtain u r where
    a: "add_field sta (Name n) (Some (TranslationFunc (Tup t n))) (df_sampling_type orig)
          \<lparr>units = u, display_name = df_display_name orig,
             output_units = None, particle_type = False\<rparr> False = Inr (st2, r)"
    by (auto simp: alias_field.simps sta_def split: sum.splits)
  show ?thesis
  proof (cases "contains (self sta) (Name n)")
    case True
    with a have "st2 = sta" by (simp add: add_field.simps)
    with o sa show ?thesis by simp
  next
    case False
    then have 1: "\<not> (\<not> False \<and> contains (self sta) (Name n))" by simp
    have 2: "sanitize_sampling_type (df_sampling_type orig)
        (particle_type \<lparr>units = u, display_name = df_display_name orig,
             output_units = None, particle_type = False\<rparr>) = Inr stype"
      using san by simp
    have 3: "sta = (if particle_type \<lparr>units = u, display_name = df_display_name orig,
             output_units = None, particle_type = False\<rparr>
          then sta\<lparr>mylog := mylog sta @ [Deprecation_particle_type]\<rparr> else sta)"
      by simp
    have 4: "t = (if stype = ''particle'' then ''all'' else default_fluid_type (ds sta))"
      using t sa by simp
    from add_field_Name [OF 1 2 3 4, of "TranslationFunc (Tup t n)"] a c sa
    have "st2 = store sta (Name n) stype (TranslationFunc (Tup t n))
        \<lparr>units = u, display_name = df_display_name orig,
             output_units = None, particle_type = False\<rparr>"
      by simp
    with o sa show ?thesis by (simp add: getitem_setitem_other)
  qed
qed

text \<open>
  C8. The claim says that a second \<^verbatim>\<open>add_field\<close> with \<^verbatim>\<open>force_override=True\<close> replaces the
  stored definition with the new one. For a bare name it does not: \<^verbatim>\<open>add_field("pressure",
  f1, "cell")\<close> stores the definition under \<^verbatim>\<open>("gas", "pressure")\<close> and makes \<^verbatim>\<open>"pressure"\<close> a
  translation of it; the call \<^verbatim>\<open>add_field("pressure", f2, "cell", force_override=True)\<close>
  then stores the new definition under \<^verbatim>\<open>"pressure"\<close>, and the first definition is still
  the one stored under \<^verbatim>\<open>("gas", "pressure")\<close>.
\<close>

theorem override_keeps_qualified_definition:
  "function_at
     (add_field (fresh_state False [] []) (Name ''pressure'') (Some (Callable ''f1''))
        ''cell'' no_kwargs False)
     (Tup ''gas'' ''pressure'') = Inr (Callable ''f1'') \<and>
   function_at
     (add_field (fresh_state False [] []) (Name ''pressure'') (Some (Callable ''f1''))
        ''cell'' no_kwargs False)
     (Name ''pressure'') = Inr (TranslationFunc (Tup ''gas'' ''pressure'')) \<and>
   function_at
     (and_then
        (add_field (fresh_state False [] []) (Name ''pressure'') (Some (Callable ''f1''))
           ''cell'' no_kwargs False)
        (\<lambda>st. add_field st (Name ''pressure'') (Some (Callable ''f2'')) ''cell'' no_kwargs True))
     (Tup ''gas'' ''pressure'') = Inr (Callable ''f1'') \<and>
   function_at
     (and_then
        (add_field (fresh_state False [] []) (Name ''pressure'') (Some (Callable ''f1''))
           ''cell'' no_kwargs False)
        (\<lambda>st. add_field st (Name ''pressure'') (Some (Callable ''f2'')) ''cell'' no_kwargs True))
     (Name ''pressure'') = Inr (Callable ''f2'')"
  by (simp add: add_field_example_defs)

text \<open>
  C8, as the code has it. A first \<^verbatim>\<open>add_field\<close> with a function, or a first decorator
  application, leaves the identity registered. On a container where the identity is
  registered, a second call without \<^verbatim>\<open>force_override\<close> changes nothing, in either calling
  form. With \<^verbatim>\<open>force_override=True\<close> the second call replaces the definition stored under
  the identity by the new one when the identity is a tuple and in the decorator form.
  For a bare name \<open>n\<close>, let \<open>ftype\<close> be \<^verbatim>\<open>"all"\<close> for particle sampling and the default fluid
  type otherwise. A first call that is not a no-op leaves \<^verbatim>\<open>(ftype, n)\<close> registered and
  the dataset as it was, and when \<^verbatim>\<open>(ftype, n)\<close> was not registered before, it is under
  \<^verbatim>\<open>(ftype, n)\<close> that the first definition is stored. A second call with
  \<^verbatim>\<open>force_override=True\<close> on a container where \<^verbatim>\<open>(ftype, n)\<close> is registered stores the new
  definition under the bare name \<open>n\<close> and changes the definition under no other identity:
  the one under \<^verbatim>\<open>(ftype, n)\<close> stays.
\<close>

theorem register_twice:
  "(add_field st0 name (Some f1) s1 kw1 ov1 = Inr (st, r1) \<longrightarrow> contains (self st) name) \<and>
   contains (self (apply_decorator st0 (Register name s1 kw1) f1)) name \<and>
   (contains (self st) name \<longrightarrow>
      add_field st name (Some f2) s2 kw2 False = Inr (st, None) \<and>
      add_field st name None s2 kw2 False = Inr (st, Some Return_only) \<and>
      apply_decorator st Return_only f2 = st) \<and>
   (is_Tup name \<longrightarrow>
      (\<exists>st'. add_field st name (Some f2) s2 kw2 True = Inr (st', None) \<and>
            getitem (self st') name = Inr (DerivedField (next_id st) name s2 f2 kw2))) \<and>
   (\<forall>n stype.
      name = Name n \<and> (ov1 \<or> \<not> contains (self st0) name) \<and>
      add_field st0 name (Some f1) s1 kw1 ov1 = Inr (st, r1) \<and>
      sanitize_sampling_type s1 (particle_type kw1) = Inr stype \<longrightarrow>
      ds st = ds st0 \<and>
      contains (self st)
        (Tup (if stype = ''particle'' then ''all'' else default_fluid_type (ds st0)) n) \<and>
      (\<not> contains (self st0)
           (Tup (if stype = ''particle'' then ''all'' else default_fluid_type (ds st0)) n) \<longrightarrow>
         getitem (self st)
           (Tup (if stype = ''particle'' then ''all'' else default_fluid_type (ds st0)) n) =
           Inr (DerivedField (next_id st0)
                  (Tup (if stype = ''particle'' then ''all'' else default_fluid_type (ds st0)) n)
                  stype f1 kw1))) \<and>
   (\<forall>n stype.
      name = Name n \<and> sanitize_sampling_type s2 (particle_type kw2) = Inr stype \<and>
      contains (self st)
        (Tup (if stype = ''particle'' then ''all'' else default_fluid_type (ds st)) n) \<longrightarrow>
      (\<exists>st'. add_field st name (Some f2) s2 kw2 True = Inr (st', None) \<and>
            getitem (self st') name = Inr (DerivedField (next_id st) name stype f2 kw2) \<and>
            (\<forall>k. k \<noteq> name \<longrightarrow> getitem (self st') k = getitem (self st) k))) \<and>
   add_field st name None s2 kw2 True = Inr (st, Some (Register name s2 kw2)) \<and>
   getitem (self (apply_decorator st (Register name s2 kw2) f2)) name =
     Inr (DerivedField (next_id st) name s2 f2 kw2)"
proof (intro conjI impI allI)
  assume "add_field st0 name (Some f1) s1 kw1 ov1 = Inr (st, r1)"
  from add_field_contains(1) [OF this] show "contains (self st) name" by simp
next
  show "contains (self (apply_decorator st0 (Register name s1 kw1) f1)) name"
    by (simp add: apply_decorator_def contains_setitem)
next
  assume "contains (self st) name"
  then show "add_field st name (Some f2) s2 kw2 False = Inr (st, None)"
    and "add_field st name None s2 kw2 False = Inr (st, Some Return_only)"
    by (simp_all add: add_field.simps)
next
  show "apply_decorator st Return_only f2 = st" by (simp add: apply_decorator_def)
next
  assume "is_Tup name"
  then obtain t n where "name = Tup t n" by (cases name) auto
  then show "\<exists>st'. add_field st name (Some f2) s2 kw2 True = Inr (st', None) \<and>
            getitem (self st') name = Inr (DerivedField (next_id st) name s2 f2 kw2)"
    by (simp add: add_field.simps getitem_setitem)
next
  fix n stype
  assume a: "name = Name n \<and> (ov1 \<or> \<not> contains (self st0) name) \<and>
      add_field st0 name (Some f1) s1 kw1 ov1 = Inr (st, r1) \<and>
      sanitize_sampling_type s1 (particle_type kw1) = Inr stype"
  define sta where "sta = (if particle_type kw1
      then st0\<lparr>mylog := mylog st0 @ [Deprecation_particle_type]\<rparr> else st0)"
  define ftype where "ftype = (if stype = ''particle'' then ''all''
      else default_fluid_type (ds sta))"
  have sa: "self sta = self st0" "ds sta = ds st0" "next_id sta = next_id st0"
    by (simp_all add: sta_def)
  have ft: "(if stype = ''particle'' then ''all'' else default_fluid_type (ds st0)) = ftype"
    by (simp add: ftype_def sa)
  have eq: "add_field st0 (Name n) (Some f1) s1 kw1 ov1 =
     (if \<not> contains (self sta) (Tup ftype n) then
        (case alias_field (store sta (Tup ftype n) stype f1 kw1) (Name n) (Tup ftype n) None of
           Inl e \<Rightarrow> Inl e
         | Inr st1 \<Rightarrow> Inr (st1, None))
      else Inr (store sta (Name n) stype f1 kw1, None))"
    using a by (intro add_field_Name [OF _ _ sta_def ftype_def]) auto
  from a have run: "add_field st0 (Name n) (Some f1) s1 kw1 ov1 = Inr (st, r1)" by blast
  have res: "ds st = ds st0 \<and> contains (self st) (Tup ftype n) \<and>
      (\<not> contains (self st0) (Tup ftype n) \<longrightarrow>
         getitem (self st) (Tup ftype n) =
           Inr (DerivedField (next_id st0) (Tup ftype n) stype f1 kw1))"
  proof (cases "contains (self sta) (Tup ftype n)")
    case True
    with eq run have "st = store sta (Name n) stype f1 kw1" by simp
    with True sa show ?thesis by (simp add: contains_setitem)
  next
    case False
    with eq run have al:
      "alias_field (store sta (Tup ftype n) stype f1 kw1) (Name n) (Tup ftype n) None = Inr st"
      by (simp split: sum.splits)
    have o: "getitem (self (store sta (Tup ftype n) stype f1 kw1)) (Tup ftype n) =
        Inr (DerivedField (next_id st0) (Tup ftype n) stype f1 kw1)"
      by (simp add: getitem_setitem sa)
    have san: "sanitize_sampling_type
        (df_sampling_type (DerivedField (next_id st0) (Tup ftype n) stype f1 kw1)) False =
        Inr stype"
      using a sanitize_sampling_type_idem [of s1 "particle_type kw1" stype]
      by (simp add: DerivedField_def)
    have t: "ftype = (if stype = ''particle'' then ''all''
        else default_fluid_type (ds (store sta (Tup ftype n) stype f1 kw1)))"
      by (simp add: ftype_def)
    from alias_field_qualified [OF o san t al]
    have g: "getitem (self st) (Tup ftype n) =
        Inr (DerivedField (next_id st0) (Tup ftype n) stype f1 kw1)"
      and d: "ds st = ds st0" by (simp_all add: sa)
    from g have "contains (self st) (Tup ftype n)"
      using getitem_contains [of "self st" "Tup ftype n"] by auto
    with g d show ?thesis by simp
  qed
  from res show "ds st = ds st0"
    and "contains (self st)
        (Tup (if stype = ''particle'' then ''all'' else default_fluid_type (ds st0)) n)"
    unfolding ft by simp_all
  assume "\<not> contains (self st0)
           (Tup (if stype = ''particle'' then ''all'' else default_fluid_type (ds st0)) n)"
  with res show "getitem (self st)
           (Tup (if stype = ''particle'' then ''all'' else default_fluid_type (ds st0)) n) =
           Inr (DerivedField (next_id st0)
                  (Tup (if stype = ''particle'' then ''all'' else default_fluid_type (ds st0)) n)
                  stype f1 kw1)"
    unfolding ft by simp
next
  fix n stype
  assume a: "name = Name n \<and> sanitize_sampling_type s2 (particle_type kw2) = Inr stype \<and>
      contains (self st)
        (Tup (if stype = ''particle'' then ''all'' else default_fluid_type (ds st)) n)"
  define st1 where "st1 = (if particle_type kw2
      then st\<lparr>mylog := mylog st @ [Deprecation_particle_type]\<rparr> else st)"
  define ftype where "ftype = (if stype = ''particle'' then ''all''
      else default_fluid_type (ds st1))"
  have s1: "self st1 = self st" "ds st1 = ds st" "next_id st1 = next_id st"
    by (simp_all add: st1_def)
  have "add_field st (Name n) (Some f2) s2 kw2 True =
     (if \<not> contains (self st1) (Tup ftype n) then
        (case alias_field (store st1 (Tup ftype n) stype f2 kw2) (Name n) (Tup ftype n) None of
           Inl e \<Rightarrow> Inl e
         | Inr st1 \<Rightarrow> Inr (st1, None))
      else Inr (store st1 (Name n) stype f2 kw2, None))"
    using a by (intro add_field_Name [OF _ _ st1_def ftype_def]) simp_all
  moreover have "contains (self st1) (Tup ftype n)"
    using a by (cases "stype = ''particle''") (simp_all add: ftype_def s1)
  ultimately have "add_field st name (Some f2) s2 kw2 True =
      Inr (store st1 (Name n) stype f2 kw2, None)" using a by simp
  moreover have "getitem (self (store st1 (Name n) stype f2 kw2)) name =
      Inr (DerivedField (next_id st) name stype f2 kw2)"
    using a by (simp add: getitem_setitem s1)
  moreover have "\<forall>k. k \<noteq> name \<longrightarrow>
      getitem (self (store st1 (Name n) stype f2 kw2)) k = getitem (self st) k"
    using a by (simp add: getitem_setitem_other s1)
  ultimately show "\<exists>st'. add_field st name (Some f2) s2 kw2 True = Inr (st', None) \<and>
            getitem (self st') name = Inr (DerivedField (next_id st) name stype f2 kw2) \<and>
            (\<forall>k. k \<noteq> name \<longrightarrow> getitem (self st') k = getitem (self st) k)"
    by blast
next
  show "add_field st name None s2 kw2 True = Inr (st, Some (Register name s2 kw2))"
    by (simp add: add_field.simps)
next
  show "getitem (self (apply_decorator st (Register name s2 kw2) f2)) name =
     Inr (DerivedField (next_id st) name s2 f2 kw2)"
    by (simp add: apply_decorator_def getitem_setitem)
qed

theorem register_twice_witness:
  "function_at
     (and_then
        (add_field (fresh_state False [] []) (Tup ''gas'' ''pressure'') (Some (Callable ''f1''))
           ''cell'' no_kwargs False)
        (\<lambda>st. add_field st (Tup ''gas'' ''pressure'') (Some (Callable ''f2'')) ''cell'' no_kwargs False))
     (Tup ''gas'' ''pressure'') = Inr (Callable ''f1'') \<and>
   function_at
     (and_then
        (add_field (fresh_state False [] []) (Tup ''gas'' ''pressure'') (Some (Callable ''f1''))
           ''cell'' no_kwargs False)
        (\<lambda>st. add_field st (Tup ''gas'' ''pressure'') (Some (Callable ''f2'')) ''cell'' no_kwargs True))
     (Tup ''gas'' ''pressure'') = Inr (Callable ''f2'') \<and>
   function_at
     (and_then
        (add_field (fresh_state False [] []) (Name ''mass'') (Some (Callable ''f1''))
           ''particle'' no_kwargs False)
        (\<lambda>st. add_field st (Name ''mass'') (Some (Callable ''f2'')) ''Particle'' no_kwargs True))
     (Name ''mass'') = Inr (Callable ''f2'') \<and>
   function_at
     (and_then
        (add_field (fresh_state False [] []) (Name ''mass'') (Some (Callable ''f1''))
           ''particle'' no_kwargs False)
        (\<lambda>st. add_field st (Name ''mass'') (Some (Callable ''f2'')) ''Particle'' no_kwargs True))
     (Tup ''all'' ''mass'') = Inr (Callable ''f1'')"
  using register_twice
          [of "fresh_state False [] []" "Tup ''gas'' ''pressure''" "Callable ''f1''" "''cell''"
              no_kwargs False
              "store (fresh_state False [] []) (Tup ''gas'' ''pressure'') ''cell'' (Callable ''f1'')
                 no_kwargs"
              None "Callable ''f2''" "''cell''" no_kwargs]
  by (simp add: add_field_example_defs)

section \<open>Plug-in loading and the published list\<close>

subsection \<open>The validation loop up to the order of its fields\<close>







subsection \<open>Example data\<close>






























end
